theory Spec2Isabelle
  imports Main "HOL-Library.Sublist"
begin

section \<open>Values, dictionaries and strings\<close>

text \<open>
  The packager is Python 2 code over YAML-loaded dictionaries. A value stored under a
  \<open>core_modules\<close> key or under \<open>cloudify_agent_module\<close> is a string or YAML null.
  Python truthiness decides the branches of the source: \<open>None\<close> and the empty string are
  falsy, every other string is truthy.
\<close>

datatype pyval = PyNone | PyStr string

fun truthy :: "pyval \<Rightarrow> bool" where
  "truthy PyNone = False"
| "truthy (PyStr s) = (s \<noteq> [])"

text \<open>
  A dictionary is an association list with one entry per key. \<open>dict_get\<close> is
  \<open>d.get(k)\<close> (a missing key reads as \<open>None\<close>), \<open>dict_set\<close> is \<open>d[k] = v\<close>,
  \<open>dict_update\<close> is \<open>d.update(other)\<close>, and the list itself is \<open>d.items()\<close>. The
  order of the list stands for the order in which Python walks the dictionary, which
  Python 2 leaves open; the properties below that speak of the checked or missing names
  as a set do not depend on it.
\<close>

type_synonym dict = "(string \<times> pyval) list"

fun dict_get :: "dict \<Rightarrow> string \<Rightarrow> pyval" where
  "dict_get [] k = PyNone"
| "dict_get ((k', v) # d) k = (if k' = k then v else dict_get d k)"

fun dict_set :: "dict \<Rightarrow> string \<Rightarrow> pyval \<Rightarrow> dict" where
  "dict_set [] k v = [(k, v)]"
| "dict_set ((k', v') # d) k v = (if k' = k then (k, v) # d else (k', v') # dict_set d k v)"

fun dict_update :: "dict \<Rightarrow> dict \<Rightarrow> dict" where
  "dict_update d [] = d"
| "dict_update d ((k, v) # other) = dict_update (dict_set d k v) other"

definition dict_keys :: "dict \<Rightarrow> string list" where
  "dict_keys d = map fst d"

text \<open>
  \<open>str.lower()\<close> on a Python 2 byte string in the default locale: the letters A-Z move
  to a-z, every other byte stays.
\<close>

definition lower_char :: "char \<Rightarrow> char" where
  "lower_char c =
     (case map_of (zip ''ABCDEFGHIJKLMNOPQRSTUVWXYZ'' ''abcdefghijklmnopqrstuvwxyz'') c of
        Some l \<Rightarrow> l
      | None \<Rightarrow> c)"

definition lower :: "string \<Rightarrow> string" where
  "lower s = map lower_char s"

text \<open>\<open>get_module_name\<close> (packager.py, line 133): \<open>module.replace('_', '-')\<close>.\<close>

definition get_module_name :: "string \<Rightarrow> string" where
  "get_module_name module = map (\<lambda>c. if c = CHR ''_'' then CHR ''-'' else c) module"

subsection \<open>The fragment of \<open>re.search\<close> that is modelled\<close>

text \<open>
  \<open>check_installed\<close> hands the module name to \<open>re.search\<close> as a pattern. The model
  covers the patterns built from literal characters and the wildcard \<open>.\<close> (any character
  but a newline); a pattern that holds any other special character of Python's \<open>re\<close>
  syntax is outside the model and \<open>re_search\<close> answers \<open>None\<close> for it. Inside the
  fragment the answer is \<open>Some True\<close> exactly when \<open>re.search\<close> returns a match object.
\<close>

definition re_special :: "char list" where
  "re_special = ''^$*+?{}[]|()'' @ [CHR 0x5C]"

definition in_fragment :: "string \<Rightarrow> bool" where
  "in_fragment pat = list_all (\<lambda>c. c \<notin> set re_special) pat"

definition match_char :: "char \<Rightarrow> char \<Rightarrow> bool" where
  "match_char p c = (if p = CHR ''.'' then c \<noteq> CHR 0x0A else p = c)"

fun match_here :: "string \<Rightarrow> string \<Rightarrow> bool" where
  "match_here [] text = True"
| "match_here (p # ps) [] = False"
| "match_here (p # ps) (c # cs) = (match_char p c \<and> match_here ps cs)"

fun search_from :: "string \<Rightarrow> string \<Rightarrow> bool" where
  "search_from pat [] = match_here pat []"
| "search_from pat (c # cs) = (match_here pat (c # cs) \<or> search_from pat cs)"

definition re_search :: "string \<Rightarrow> string \<Rightarrow> bool option" where
  "re_search pat text = (if in_fragment pat then Some (search_from pat text) else None)"

section \<open>Configuration and the modules dictionary\<close>

text \<open>
  The configuration is the dictionary that \<open>yaml.safe_load\<close> returned. A field is
  \<open>None\<close> when its key is absent. When present, \<open>core_modules\<close> is a mapping,
  \<open>additional_modules\<close> a list of strings, \<open>cloudify_agent_version\<close> the text that
  \<open>str.format\<close> substitutes for it.
\<close>

record config =
  cfg_distribution :: "string option"
  cfg_release :: "string option"
  cfg_python_path :: "string option"
  cfg_venv :: "string option"
  cfg_keep_venv :: "bool option"
  cfg_output_tar :: "string option"
  cfg_core_modules :: "dict option"
  cfg_additional_modules :: "string list option"
  cfg_cloudify_agent_module :: "pyval option"
  cfg_cloudify_agent_version :: "string option"

text \<open>
  The \<open>modules\<close> dictionary of \<open>create\<close> has the keys \<open>core\<close>, \<open>additional\<close> and
  \<open>agent\<close>; \<open>agent\<close> is \<open>None\<close> here only for a dictionary without that key, which
  \<open>_validate\<close> tests with \<open>'agent' in modules\<close>.
\<close>

record modules =
  core :: dict
  additional :: "string list"
  agent :: "pyval option"

definition EXTERNAL_MODULES :: "string list" where
  "EXTERNAL_MODULES = [''celery==3.0.24'']"

definition MODULES_LIST :: "string list" where
  "MODULES_LIST =
     [''cloudify_rest_client'',
      ''cloudify_plugins_common'',
      ''cloudify_script_plugin'',
      ''cloudify_diamond_plugin'']"

definition DEFAULT_CLOUDIFY_AGENT_URL :: "string \<Rightarrow> string" where
  "DEFAULT_CLOUDIFY_AGENT_URL v =
     ''https://github.com/nir0s/cloudify-agent/archive/'' @ v @ ''.tar.gz''"

definition DEFAULT_OUTPUT_TAR_PATH :: "string \<Rightarrow> string \<Rightarrow> string" where
  "DEFAULT_OUTPUT_TAR_PATH d r = d @ ''-'' @ r @ ''-agent.tar.gz''"

definition DEFAULT_VENV_PATH :: "string \<Rightarrow> string \<Rightarrow> string" where
  "DEFAULT_VENV_PATH d r = ''cloudify/'' @ d @ ''-'' @ r @ ''-agent/env''"

text \<open>
  How a run ends early: \<open>sys.exit(n)\<close>, an exception of a library call, or a pattern
  that left the modelled fragment of \<open>re.search\<close>.
\<close>

datatype abort = Exit int | Raised | NotModelled

text \<open>The loop \<open>for x in xs: acc.append(x)\<close>.\<close>

fun append_each :: "'a list \<Rightarrow> 'a list \<Rightarrow> 'a list" where
  "append_each acc [] = acc"
| "append_each acc (x # xs) = append_each (acc @ [x]) xs"

text \<open>\<open>config.get('additional_modules', [])\<close> and \<open>config.get('core_modules', {})\<close>.\<close>

definition additional_modules_of :: "config \<Rightarrow> string list" where
  "additional_modules_of config =
     (case cfg_additional_modules config of None \<Rightarrow> [] | Some l \<Rightarrow> l)"

definition core_modules_of :: "config \<Rightarrow> dict" where
  "core_modules_of config = (case cfg_core_modules config of None \<Rightarrow> [] | Some d \<Rightarrow> d)"

text \<open>\<open>_merge_modules\<close> (packager.py, lines 77-97).\<close>

definition merge_modules :: "modules \<Rightarrow> config \<Rightarrow> abort + modules" where
  "merge_modules mods config =
     (let additional_modules = additional_modules_of config;
          mods1 = mods\<lparr>core := dict_update (core mods) (core_modules_of config)\<rparr>
      in case cfg_cloudify_agent_module config of
           Some v \<Rightarrow>
             Inr (mods1\<lparr>agent := Some v,
                        additional := append_each (additional mods1) additional_modules\<rparr>)
         | None \<Rightarrow>
             (case cfg_cloudify_agent_version config of
                Some ver \<Rightarrow>
                  Inr (mods1\<lparr>agent := Some (PyStr (DEFAULT_CLOUDIFY_AGENT_URL ver)),
                             additional := append_each (additional mods1) additional_modules\<rparr>)
              | None \<Rightarrow> Inl (Exit 3)))"

text \<open>The dictionary \<open>create\<close> builds before merging (packager.py, lines 219-222).\<close>

definition initial_modules :: modules where
  "initial_modules = \<lparr>core = [], additional = [], agent = Some (PyStr [])\<rparr>"

section \<open>The outside world\<close>

text \<open>
  Shell commands, the file system, \<open>platform.dist()\<close> and the table \<open>codes.errors\<close>
  (a module that is not part of the sources) are parameters. A shell command returns its
  exit status and its standard output and may change the world; \<open>shutil.rmtree\<close> and
  \<open>os.remove\<close> answer \<open>None\<close> when they raise; \<open>platform_dist\<close> gives the components
  0 and 2 of \<open>platform.dist()\<close>, or \<open>None\<close> when the lookup raises.
\<close>

record proc =
  returncode :: int
  stdout :: string

record 'w ext =
  subprocess_popen :: "string \<Rightarrow> 'w \<Rightarrow> proc \<times> 'w"
  os_path_isdir :: "string \<Rightarrow> 'w \<Rightarrow> bool"
  os_path_isfile :: "string \<Rightarrow> 'w \<Rightarrow> bool"
  os_path_exists :: "string \<Rightarrow> 'w \<Rightarrow> bool"
  shutil_rmtree :: "string \<Rightarrow> 'w \<Rightarrow> 'w option"
  os_remove :: "string \<Rightarrow> 'w \<Rightarrow> 'w option"
  platform_dist :: "'w \<Rightarrow> (string \<times> string) option"
  codes_errors :: "string \<Rightarrow> int"

text \<open>
  The state threaded through a run is the world together with the history of the
  functions of \<open>utils\<close> that ran a command: which function with which arguments, the
  command line it built, and what the command returned. The history is only ever
  extended; no branch of the model reads it.
\<close>

datatype call =
    MakeVirtualenv string string
  | InstallModule string string
  | UninstallModule string string
  | GetInstalled string
  | CheckInstalled string string
  | Tar string string

type_synonym event = "call \<times> string \<times> proc"

record 'w state =
  world :: 'w
  trace :: "event list"

type_synonym ('w, 'a) action = "'w state \<Rightarrow> (abort + 'a) \<times> 'w state"

definition ret :: "'a \<Rightarrow> ('w, 'a) action" where
  "ret v st = (Inr v, st)"

definition fail :: "abort \<Rightarrow> ('w, 'a) action" where
  "fail e st = (Inl e, st)"

definition then_do :: "('w, 'a) action \<Rightarrow> ('a \<Rightarrow> ('w, 'b) action) \<Rightarrow> ('w, 'b) action" where
  "then_do f g st = (case f st of (Inl e, st1) \<Rightarrow> (Inl e, st1) | (Inr v, st1) \<Rightarrow> g v st1)"

section \<open>utils.py\<close>

text \<open>
  \<open>run\<close> (lines 13-28): the command goes to the shell and the process comes back with
  its exit status and output; the flag \<open>no_print\<close> only concerns logging. The caller is
  noted in the history.
\<close>

definition run :: "'w ext \<Rightarrow> call \<Rightarrow> string \<Rightarrow> 'w state \<Rightarrow> proc \<times> 'w state" where
  "run x caller cmd st =
     (case subprocess_popen x cmd (world st) of
        (p, w) \<Rightarrow> (p, \<lparr>world = w, trace = trace st @ [(caller, cmd, p)]\<rparr>))"

text \<open>\<open>make_virtualenv\<close> (lines 31-40).\<close>

definition make_virtualenv :: "'w ext \<Rightarrow> string \<Rightarrow> string \<Rightarrow> ('w, unit) action" where
  "make_virtualenv x virtualenv_dir python st =
     (case run x (MakeVirtualenv virtualenv_dir python)
             (''virtualenv -p '' @ python @ '' '' @ virtualenv_dir) st of
        (p, st1) \<Rightarrow>
          if returncode p \<noteq> 0
          then (Inl (Exit (codes_errors x ''could_not_create_virtualenv'')), st1)
          else (Inr (), st1))"

text \<open>\<open>install_module\<close> (lines 43-57).\<close>

definition install_module :: "'w ext \<Rightarrow> string \<Rightarrow> string \<Rightarrow> ('w, unit) action" where
  "install_module x module venv st =
     (let pip_cmd =
            (if module = ''pre''
             then venv @ ''/bin/pip install '' @ module @ '' --pre''
             else venv @ ''/bin/pip install '' @ module)
      in case run x (InstallModule module venv) pip_cmd st of
           (p, st1) \<Rightarrow>
             if returncode p \<noteq> 0
             then (Inl (Exit (codes_errors x ''could_not_install_module'')), st1)
             else (Inr (), st1))"

text \<open>\<open>uninstall_module\<close> (lines 74-85).\<close>

definition uninstall_module :: "'w ext \<Rightarrow> string \<Rightarrow> string \<Rightarrow> ('w, unit) action" where
  "uninstall_module x module venv st =
     (case run x (UninstallModule module venv)
             (venv @ ''/bin/pip uninstall '' @ module @ '' -y'') st of
        (p, st1) \<Rightarrow>
          if returncode p \<noteq> 0
          then (Inl (Exit (codes_errors x ''could_not_uninstall_module'')), st1)
          else (Inr (), st1))"

text \<open>\<open>get_installed\<close> (lines 88-90).\<close>

definition get_installed :: "'w ext \<Rightarrow> string \<Rightarrow> ('w, string) action" where
  "get_installed x venv st =
     (case run x (GetInstalled venv) (venv @ ''/bin/pip freeze'') st of
        (p, st1) \<Rightarrow> (Inr (stdout p), st1))"

text \<open>\<open>check_installed\<close> (lines 93-104).\<close>

definition check_installed :: "'w ext \<Rightarrow> string \<Rightarrow> string \<Rightarrow> ('w, bool) action" where
  "check_installed x module venv st =
     (case run x (CheckInstalled module venv) (venv @ ''/bin/pip freeze'') st of
        (p, st1) \<Rightarrow>
          (case re_search module (lower (stdout p)) of
             None \<Rightarrow> (Inl NotModelled, st1)
           | Some found \<Rightarrow> (Inr found, st1)))"

text \<open>\<open>tar\<close> (lines 123-134).\<close>

definition tar :: "'w ext \<Rightarrow> string \<Rightarrow> string \<Rightarrow> ('w, unit) action" where
  "tar x source destination st =
     (case run x (Tar source destination)
             (''tar czvf '' @ destination @ '' '' @ source) st of
        (p, st1) \<Rightarrow>
          if returncode p \<noteq> 0
          then (Inl (Exit (codes_errors x ''failed_to_create_tar'')), st1)
          else (Inr (), st1))"

section \<open>packager.py\<close>

subsection \<open>Validation\<close>

text \<open>
  The inner function \<open>check\<close> of \<open>_validate\<close> (lines 111-117); the list \<open>failed\<close>
  that the source appends to in place is passed in and returned.
\<close>

definition check :: "'w ext \<Rightarrow> string \<Rightarrow> string \<Rightarrow> string list \<Rightarrow> ('w, string list) action" where
  "check x module venv failed st =
     (let module_name = get_module_name module
      in case check_installed x module_name venv st of
           (Inl e, st1) \<Rightarrow> (Inl e, st1)
         | (Inr found, st1) \<Rightarrow>
             if \<not> found then (Inr (failed @ [module_name]), st1) else (Inr failed, st1))"

text \<open>The loop over \<open>modules['core'].items()\<close> (lines 119-121).\<close>

fun check_core :: "'w ext \<Rightarrow> dict \<Rightarrow> string \<Rightarrow> string list \<Rightarrow> ('w, string list) action" where
  "check_core x [] venv failed st = (Inr failed, st)"
| "check_core x ((core_module, source) # items) venv failed st =
     (if truthy source \<and> \<not> source = PyStr ''exclude''
      then (case check x core_module venv failed st of
              (Inl e, st1) \<Rightarrow> (Inl e, st1)
            | (Inr failed1, st1) \<Rightarrow> check_core x items venv failed1 st1)
      else check_core x items venv failed st)"

text \<open>The loop over \<open>modules['additional']\<close> (lines 122-123).\<close>

fun check_additional ::
  "'w ext \<Rightarrow> string list \<Rightarrow> string \<Rightarrow> string list \<Rightarrow> ('w, string list) action" where
  "check_additional x [] venv failed st = (Inr failed, st)"
| "check_additional x (additional_module # rest) venv failed st =
     (case check x additional_module venv failed st of
        (Inl e, st1) \<Rightarrow> (Inl e, st1)
      | (Inr failed1, st1) \<Rightarrow> check_additional x rest venv failed1 st1)"

text \<open>
  The three passes of \<open>_validate\<close> (lines 109-125), returning the list \<open>failed\<close> as it
  stands before the test of line 127.
\<close>

definition collect_failed :: "'w ext \<Rightarrow> modules \<Rightarrow> string \<Rightarrow> ('w, string list) action" where
  "collect_failed x mods venv =
     then_do (check_core x (core mods) venv [])
       (\<lambda>failed1. then_do (check_additional x (additional mods) venv failed1)
          (\<lambda>failed2. if agent mods \<noteq> None
                      then check x ''cloudify-agent'' venv failed2
                      else ret failed2))"

text \<open>\<open>_validate\<close> (lines 100-130).\<close>

definition validate :: "'w ext \<Rightarrow> modules \<Rightarrow> string \<Rightarrow> ('w, unit) action" where
  "validate x mods venv =
     then_do (collect_failed x mods venv)
       (\<lambda>failed. if failed \<noteq> [] then fail (Exit 10) else ret ())"

subsection \<open>The steps of \<open>create\<close>\<close>

text \<open>The virtualenv block of \<open>create\<close> (lines 194-206).\<close>

definition ensure_virtualenv :: "'w ext \<Rightarrow> string \<Rightarrow> string \<Rightarrow> bool \<Rightarrow> ('w, unit) action" where
  "ensure_virtualenv x venv python force st =
     (if os_path_isdir x venv (world st)
      then (if force
            then (case shutil_rmtree x venv (world st) of
                    None \<Rightarrow> (Inl Raised, st)
                  | Some w \<Rightarrow> make_virtualenv x venv python (st\<lparr>world := w\<rparr>))
            else (Inl (Exit 2), st))
      else make_virtualenv x venv python st)"

text \<open>The output-file block of \<open>create\<close> (lines 208-215).\<close>

definition ensure_output_free :: "'w ext \<Rightarrow> string \<Rightarrow> bool \<Rightarrow> ('w, unit) action" where
  "ensure_output_free x destination_tar force st =
     (if os_path_isfile x destination_tar (world st) \<and> force
      then (case os_remove x destination_tar (world st) of
              None \<Rightarrow> (Inl Raised, st)
            | Some w \<Rightarrow>
                if os_path_exists x destination_tar w
                then (Inl (Exit 9), st\<lparr>world := w\<rparr>)
                else (Inr (), st\<lparr>world := w\<rparr>))
      else if os_path_exists x destination_tar (world st)
           then (Inl (Exit 9), st)
           else (Inr (), st))"

text \<open>
  The loops \<open>for m in ms: utils.install_module(m, venv)\<close>, over \<open>EXTERNAL_MODULES\<close>
  (lines 235-237) and over \<open>modules['additional']\<close> (lines 256-258).
\<close>

fun install_each :: "'w ext \<Rightarrow> string list \<Rightarrow> string \<Rightarrow> ('w, unit) action" where
  "install_each x [] venv st = (Inr (), st)"
| "install_each x (m # ms) venv st =
     (case install_module x m venv st of
        (Inl e, st1) \<Rightarrow> (Inl e, st1)
      | (Inr u, st1) \<Rightarrow> install_each x ms venv st1)"

text \<open>
  What \<open>install_module\<close> receives for \<open>core[module]\<close>; the source reads it only where
  \<open>core.get(module)\<close> is truthy, hence a string.
\<close>

fun str_of :: "pyval \<Rightarrow> string" where
  "str_of (PyStr s) = s"
| "str_of PyNone = ''None''"

text \<open>The loop over \<open>MODULES_LIST\<close> that installs the core modules (lines 240-253).\<close>

fun install_core_modules :: "'w ext \<Rightarrow> dict \<Rightarrow> string list \<Rightarrow> string \<Rightarrow> ('w, unit) action" where
  "install_core_modules x core_d [] venv st = (Inr (), st)"
| "install_core_modules x core_d (module # rest) venv st =
     (if truthy (dict_get core_d module) \<and> dict_get core_d module = PyStr ''exclude''
      then install_core_modules x core_d rest venv st
      else if truthy (dict_get core_d module)
      then (case install_module x (str_of (dict_get core_d module)) venv st of
              (Inl e, st1) \<Rightarrow> (Inl e, st1)
            | (Inr u, st1) \<Rightarrow> install_core_modules x core_d rest venv st1)
      else install_core_modules x core_d rest venv st)"

text \<open>The installation of cloudify-agent (lines 261-264).\<close>

definition install_agent :: "'w ext \<Rightarrow> modules \<Rightarrow> string \<Rightarrow> ('w, unit) action" where
  "install_agent x mods venv st =
     (case agent mods of
        None \<Rightarrow> (Inr (), st)
      | Some a \<Rightarrow> if truthy a then install_module x (str_of a) venv st else (Inr (), st))"

text \<open>The loop that uninstalls the excluded modules (lines 268-273).\<close>

fun uninstall_excluded :: "'w ext \<Rightarrow> dict \<Rightarrow> string list \<Rightarrow> string \<Rightarrow> ('w, unit) action" where
  "uninstall_excluded x core_d [] venv st = (Inr (), st)"
| "uninstall_excluded x core_d (module # rest) venv st =
     (let module_name = get_module_name module
      in if dict_get core_d module = PyStr ''exclude''
         then (case check_installed x module_name venv st of
                 (Inl e, st1) \<Rightarrow> (Inl e, st1)
               | (Inr found, st1) \<Rightarrow>
                   if found
                   then (case uninstall_module x module_name venv st1 of
                           (Inl e, st2) \<Rightarrow> (Inl e, st2)
                         | (Inr u, st2) \<Rightarrow> uninstall_excluded x core_d rest venv st2)
                   else uninstall_excluded x core_d rest venv st1)
         else uninstall_excluded x core_d rest venv st)"

text \<open>The removal of the virtualenv after archiving (lines 283-285).\<close>

definition remove_virtualenv :: "'w ext \<Rightarrow> string \<Rightarrow> ('w, unit) action" where
  "remove_virtualenv x venv st =
     (case shutil_rmtree x venv (world st) of
        None \<Rightarrow> (Inl Raised, st)
      | Some w \<Rightarrow> (Inr (), st\<lparr>world := w\<rparr>))"

text \<open>
  Lines 234-273 of \<open>create\<close>: the external modules, the core modules, the additional
  modules, the agent, then the exclusions.
\<close>

definition install_modules :: "'w ext \<Rightarrow> modules \<Rightarrow> string \<Rightarrow> ('w, unit) action" where
  "install_modules x mods venv =
     then_do (install_each x EXTERNAL_MODULES venv)
       (\<lambda>_. then_do (install_core_modules x (core mods) MODULES_LIST venv)
       (\<lambda>_. then_do (install_each x (additional mods) venv)
       (\<lambda>_. then_do (install_agent x mods venv)
       (\<lambda>_. uninstall_excluded x (core mods) MODULES_LIST venv))))"

text \<open>Lines 275-289 of \<open>create\<close>: validation, the archive, the clean-up, the report.\<close>

definition finish :: "'w ext \<Rightarrow> modules \<Rightarrow> string \<Rightarrow> string \<Rightarrow> bool \<Rightarrow> bool \<Rightarrow> ('w, unit) action" where
  "finish x mods venv destination_tar keep_venv no_validate =
     then_do (if \<not> no_validate then validate x mods venv else ret ())
       (\<lambda>_. then_do (tar x venv destination_tar)
       (\<lambda>_. then_do (if \<not> keep_venv then remove_virtualenv x venv else ret ())
       (\<lambda>_. then_do (get_installed x venv)
       (\<lambda>_. ret ()))))"

text \<open>The paths that \<open>create\<close> takes from the configuration (lines 172-186).\<close>

definition venv_of :: "config \<Rightarrow> string \<Rightarrow> string \<Rightarrow> string" where
  "venv_of config dist0 dist2 =
     (let distro = (case cfg_distribution config of Some d \<Rightarrow> d | None \<Rightarrow> dist0);
          release = (case cfg_release config of Some r \<Rightarrow> r | None \<Rightarrow> dist2)
      in case cfg_venv config of Some v \<Rightarrow> v | None \<Rightarrow> DEFAULT_VENV_PATH distro release)"

definition destination_tar_of :: "config \<Rightarrow> string \<Rightarrow> string \<Rightarrow> string" where
  "destination_tar_of config dist0 dist2 =
     (let distro = (case cfg_distribution config of Some d \<Rightarrow> d | None \<Rightarrow> dist0);
          release = (case cfg_release config of Some r \<Rightarrow> r | None \<Rightarrow> dist2)
      in case cfg_output_tar config of
           Some t \<Rightarrow> t
         | None \<Rightarrow> DEFAULT_OUTPUT_TAR_PATH distro release)"

definition python_of :: "config \<Rightarrow> string" where
  "python_of config = (case cfg_python_path config of Some p \<Rightarrow> p | None \<Rightarrow> ''/usr/bin/python'')"

definition keep_venv_of :: "config \<Rightarrow> bool" where
  "keep_venv_of config = (case cfg_keep_venv config of Some k \<Rightarrow> k | None \<Rightarrow> False)"

text \<open>
  \<open>create\<close> (lines 137-289), from the loaded configuration on (line 171): the part that
  reads the configuration file is not modelled, and logging has no effect on the run.
\<close>

definition create :: "'w ext \<Rightarrow> config \<Rightarrow> bool \<Rightarrow> bool \<Rightarrow> bool \<Rightarrow> ('w, unit) action" where
  "create x config force dry no_validate st =
     (case platform_dist x (world st) of
        None \<Rightarrow> (Inl (Exit 1), st)
      | Some (dist0, dist2) \<Rightarrow>
          (let python = python_of config;
               venv = venv_of config dist0 dist2;
               keep_venv = keep_venv_of config;
               destination_tar = destination_tar_of config dist0 dist2
           in then_do (ensure_virtualenv x venv python force)
                (\<lambda>_. then_do (ensure_output_free x destination_tar force)
                (\<lambda>_. case merge_modules initial_modules config of
                        Inl e \<Rightarrow> fail e
                      | Inr mods \<Rightarrow>
                          if dry then fail (Exit 0)
                          else then_do (install_modules x mods venv)
                                 (\<lambda>_. finish x mods venv destination_tar keep_venv no_validate)))
                st))"

section \<open>Notions the properties are stated with\<close>

text \<open>
  The text that \<open>pip freeze\<close> prints in a world, and the condition that running it
  leaves the world as it is.
\<close>

definition listing :: "'w ext \<Rightarrow> string \<Rightarrow> 'w \<Rightarrow> string" where
  "listing x venv w = stdout (fst (subprocess_popen x (venv @ ''/bin/pip freeze'') w))"

definition freeze_readonly :: "'w ext \<Rightarrow> string \<Rightarrow> bool" where
  "freeze_readonly x venv = (\<forall>w. snd (subprocess_popen x (venv @ ''/bin/pip freeze'') w) = w)"

text \<open>
  The core entries whose source is a location (truthy and not the word \<open>exclude\<close>), and
  the names validation has to look for: those entries, the additional modules and the
  fixed name of the agent, each with hyphens for underscores.
\<close>

definition located :: "pyval \<Rightarrow> bool" where
  "located source = (truthy source \<and> source \<noteq> PyStr ''exclude'')"

definition names_to_check :: "modules \<Rightarrow> string list" where
  "names_to_check mods =
     map get_module_name
       (map fst (filter (\<lambda>item. located (snd item)) (core mods)) @ additional mods)
     @ [''cloudify-agent'']"

text \<open>The modules handed to \<open>install_module\<close> and to \<open>uninstall_module\<close> in a history.\<close>

fun installs :: "event list \<Rightarrow> string list" where
  "installs [] = []"
| "installs ((InstallModule m v, cmd, p) # es) = m # installs es"
| "installs (e # es) = installs es"

fun uninstalls :: "event list \<Rightarrow> string list" where
  "uninstalls [] = []"
| "uninstalls ((UninstallModule m v, cmd, p) # es) = m # uninstalls es"
| "uninstalls (e # es) = uninstalls es"

text \<open>
  The sources of the catalog slots that hold a location, in the order of the slots, and
  the whole sequence a plan asks to install.
\<close>

definition core_sources :: "dict \<Rightarrow> string list \<Rightarrow> string list" where
  "core_sources core_d slots =
     map (\<lambda>slot. str_of (dict_get core_d slot))
       (filter (\<lambda>slot. located (dict_get core_d slot)) slots)"

definition agent_source :: "modules \<Rightarrow> string list" where
  "agent_source mods =
     (case agent mods of None \<Rightarrow> [] | Some a \<Rightarrow> if truthy a then [str_of a] else [])"

definition planned_installs :: "modules \<Rightarrow> string list" where
  "planned_installs mods =
     EXTERNAL_MODULES @ core_sources (core mods) MODULES_LIST @ additional mods
     @ agent_source mods"

text \<open>
  The names of a list that a listing does not show, and the history that one membership
  check per name leaves in a world where \<open>pip freeze\<close> changes nothing.
\<close>

definition missing :: "string \<Rightarrow> string list \<Rightarrow> string list" where
  "missing l names = filter (\<lambda>n. re_search n (lower l) = Some False) names"

definition checks :: "'w ext \<Rightarrow> string \<Rightarrow> 'w \<Rightarrow> string list \<Rightarrow> event list" where
  "checks x venv w names =
     map (\<lambda>n. (CheckInstalled n venv, venv @ ''/bin/pip freeze'',
               fst (subprocess_popen x (venv @ ''/bin/pip freeze'') w))) names"

text \<open>
  What an action adds to the history. \<open>yields f Q\<close>: from every state, \<open>f\<close> extends the
  history by some events \<open>T\<close> and \<open>Q\<close> holds of \<open>T\<close> and of the result. An \<open>early\<close> step
  only creates the virtualenv or installs, and it installs an initial part of the list
  \<open>E\<close>, all of it when it returns; a \<open>late\<close> step installs nothing; a \<open>staged\<close> run
  is an early part followed by a late part, and the late part only begins once all of
  \<open>E\<close> is installed.
\<close>

definition yields :: "('w, 'a) action \<Rightarrow> (event list \<Rightarrow> abort + 'a \<Rightarrow> bool) \<Rightarrow> bool" where
  "yields f Q = (\<forall>st. \<exists>T. trace (snd (f st)) = trace st @ T \<and> Q T (fst (f st)))"

fun setup_call :: "call \<Rightarrow> bool" where
  "setup_call (MakeVirtualenv v py) = True"
| "setup_call (InstallModule m v) = True"
| "setup_call c = False"

definition setup_only :: "event list \<Rightarrow> bool" where
  "setup_only T = list_all (\<lambda>e. setup_call (fst e)) T"

definition early :: "string list \<Rightarrow> event list \<Rightarrow> abort + 'a \<Rightarrow> bool" where
  "early E T r =
     (setup_only T \<and> prefix (installs T) E \<and> (\<not> isl r \<longrightarrow> installs T = E))"

definition late :: "event list \<Rightarrow> abort + 'a \<Rightarrow> bool" where
  "late T r = (installs T = [])"

definition staged :: "string list \<Rightarrow> event list \<Rightarrow> abort + 'a \<Rightarrow> bool" where
  "staged E T r =
     (\<exists>T1 T2. T = T1 @ T2 \<and> setup_only T1 \<and> installs T2 = []
        \<and> prefix (installs T1) E \<and> (T2 \<noteq> [] \<or> \<not> isl r \<longrightarrow> installs T1 = E))"

text \<open>
  A history shows a module present when it holds a membership check for that name whose
  listing matched. The history of an exclusion pass over some slots speaks of these
  slots only, and it uninstalls the name of a slot exactly when the slot is excluded and
  its check showed the name present.
\<close>

definition seen_present :: "string \<Rightarrow> string \<Rightarrow> event list \<Rightarrow> bool" where
  "seen_present venv n T =
     list_ex (\<lambda>e. fst e = CheckInstalled n venv
                 \<and> re_search n (lower (stdout (snd (snd e)))) = Some True) T"

definition exclusion_history :: "dict \<Rightarrow> string \<Rightarrow> string list \<Rightarrow> event list \<Rightarrow> bool" where
  "exclusion_history d venv slots T =
     ((\<forall>e \<in> set T. \<exists>m \<in> set slots.
          fst e = CheckInstalled (get_module_name m) venv
        \<or> fst e = UninstallModule (get_module_name m) venv)
      \<and> (\<forall>m \<in> set slots.
            (get_module_name m \<in> set (uninstalls T)) =
            (dict_get d m = PyStr ''exclude'' \<and> seen_present venv (get_module_name m) T)))"

section \<open>A small world for concrete runs\<close>

text \<open>
  A world that records whether the virtualenv directory and the archive exist and what
  \<open>pip freeze\<close> prints. Every command succeeds and prints the listing; a command in the
  table \<open>effects\<close> also changes the world.
\<close>

record demo_world =
  venv_present :: bool
  tar_present :: bool
  installed :: string

definition demo_ext :: "(string \<times> (demo_world \<Rightarrow> demo_world)) list \<Rightarrow> demo_world ext" where
  "demo_ext effects =
     \<lparr>subprocess_popen = (\<lambda>cmd w.
         (\<lparr>returncode = 0, stdout = installed w\<rparr>,
          case map_of effects cmd of None \<Rightarrow> w | Some f \<Rightarrow> f w)),
      os_path_isdir = (\<lambda>path w. venv_present w),
      os_path_isfile = (\<lambda>path w. tar_present w),
      os_path_exists = (\<lambda>path w. tar_present w),
      shutil_rmtree = (\<lambda>path w. Some (w\<lparr>venv_present := False\<rparr>)),
      os_remove = (\<lambda>path w. Some (w\<lparr>tar_present := False\<rparr>)),
      platform_dist = (\<lambda>w. Some (''Ubuntu'', ''trusty'')),
      codes_errors = (\<lambda>name. 1)\<rparr>"

text \<open>
  The same world with a \<open>pip\<close> whose uninstall of cloudify-diamond-plugin takes the
  package out of the listing.
\<close>

definition demo_pip :: "demo_world ext" where
  "demo_pip =
     demo_ext
       [(''env/bin/pip uninstall cloudify-diamond-plugin -y'',
         \<lambda>w. w\<lparr>installed :=
           ''cloudify-agent cloudify-rest-client cloudify-script-plugin PyYAML''\<rparr>)]"

definition demo_state :: "bool \<Rightarrow> bool \<Rightarrow> string \<Rightarrow> demo_world state" where
  "demo_state v t l = \<lparr>world = \<lparr>venv_present = v, tar_present = t, installed = l\<rparr>, trace = []\<rparr>"

text \<open>
  A configuration that places three core modules, one of them excluded, and one
  additional module, and a listing that shows all of them.
\<close>

definition demo_config :: config where
  "demo_config =
     \<lparr>cfg_distribution = None, cfg_release = None, cfg_python_path = None,
      cfg_venv = Some ''env'', cfg_keep_venv = None, cfg_output_tar = None,
      cfg_core_modules = Some [(''cloudify_script_plugin'', PyStr ''script-src''),
                               (''cloudify_rest_client'', PyStr ''rest-src''),
                               (''cloudify_diamond_plugin'', PyStr ''exclude'')],
      cfg_additional_modules = Some [''pyyaml''],
      cfg_cloudify_agent_module = None,
      cfg_cloudify_agent_version = Some ''1.0''\<rparr>"

definition demo_listing :: string where
  "demo_listing =
     ''cloudify-agent cloudify-diamond-plugin cloudify-rest-client cloudify-script-plugin PyYAML''"

definition empty_config :: config where
  "empty_config =
     \<lparr>cfg_distribution = None, cfg_release = None, cfg_python_path = None, cfg_venv = None,
      cfg_keep_venv = None, cfg_output_tar = None, cfg_core_modules = None,
      cfg_additional_modules = None, cfg_cloudify_agent_module = None,
      cfg_cloudify_agent_version = None\<rparr>"

text \<open>
  The plan that \<open>demo_config\<close> resolves to, and the state in which the steps of \<open>create\<close>
  up to the installation of the agent leave the demo world.
\<close>

definition demo_plan :: modules where
  "demo_plan =
     \<lparr>core = [(''cloudify_script_plugin'', PyStr ''script-src''),
              (''cloudify_rest_client'', PyStr ''rest-src''),
              (''cloudify_diamond_plugin'', PyStr ''exclude'')],
      additional = [''pyyaml''],
      agent = Some (PyStr ''https://github.com/nir0s/cloudify-agent/archive/1.0.tar.gz'')\<rparr>"

definition demo_after_agent :: "demo_world state" where
  "demo_after_agent =
     snd (install_agent demo_pip demo_plan ''env''
       (snd (install_each demo_pip (additional demo_plan) ''env''
         (snd (install_core_modules demo_pip (core demo_plan) MODULES_LIST ''env''
           (snd (install_each demo_pip EXTERNAL_MODULES ''env''
             (demo_state False False demo_listing))))))))"

lemmas string_defs =
  lower_def lower_char_def get_module_name_def re_search_def in_fragment_def re_special_def
  match_char_def

lemmas utils_defs =
  run_def make_virtualenv_def install_module_def uninstall_module_def get_installed_def
  check_installed_def tar_def ret_def fail_def then_do_def

lemmas demo_defs =
  demo_ext_def demo_state_def empty_config_def listing_def freeze_readonly_def

lemmas packager_defs =
  check_def collect_failed_def validate_def ensure_virtualenv_def ensure_output_free_def
  install_agent_def remove_virtualenv_def install_modules_def finish_def venv_of_def
  destination_tar_of_def python_of_def keep_venv_of_def create_def merge_modules_def
  initial_modules_def additional_modules_of_def core_modules_of_def EXTERNAL_MODULES_def
  MODULES_LIST_def DEFAULT_CLOUDIFY_AGENT_URL_def DEFAULT_OUTPUT_TAR_PATH_def
  DEFAULT_VENV_PATH_def Let_def

section \<open>Dictionaries and patterns\<close>

lemma append_each_eq: "append_each acc xs = acc @ xs"
  by (induction xs arbitrary: acc) auto

lemma dict_set_fresh: "k \<notin> fst ` set d \<Longrightarrow> dict_set d k v = d @ [(k, v)]"
  by (induction d) auto

lemma dict_update_distinct:
  "distinct (map fst (d @ other)) \<Longrightarrow> dict_update d other = d @ other"
proof (induction other arbitrary: d)
  case Nil
  then show ?case by simp
next
  case (Cons kv other)
  obtain k v where kv: "kv = (k, v)" by (cases kv)
  from Cons.prems kv have fresh: "k \<notin> fst ` set d" by auto
  from Cons.prems kv have "distinct (map fst ((d @ [(k, v)]) @ other))" by auto
  then have "dict_update (d @ [(k, v)]) other = (d @ [(k, v)]) @ other"
    by (rule Cons.IH)
  with fresh kv show ?case by (simp add: dict_set_fresh)
qed

lemma dict_get_absent: "k \<notin> fst ` set d \<Longrightarrow> dict_get d k = PyNone"
  by (induction d) auto

lemma dict_get_distinct: "distinct (map fst d) \<Longrightarrow> (k, v) \<in> set d \<Longrightarrow> dict_get d k = v"
  by (induction d) (auto simp: rev_image_eqI)

lemma match_here_Nil: "match_here p [] = (p = [])"
  by (cases p) auto

lemma match_here_iff:
  "match_here p t \<longleftrightarrow> (\<exists>m r. t = m @ r \<and> list_all2 match_char p m)"
proof (induction p t rule: match_here.induct)
  case (1 t)
  then show ?case by simp
next
  case (2 p ps)
  then show ?case by simp
next
  case (3 p ps c cs)
  show ?case
  proof
    assume "match_here (p # ps) (c # cs)"
    then have mc: "match_char p c" and "match_here ps cs" by auto
    with 3 obtain m r where "cs = m @ r" "list_all2 match_char ps m" by auto
    with mc have "c # cs = (c # m) @ r \<and> list_all2 match_char (p # ps) (c # m)" by simp
    then show "\<exists>m r. c # cs = m @ r \<and> list_all2 match_char (p # ps) m" by blast
  next
    assume "\<exists>m r. c # cs = m @ r \<and> list_all2 match_char (p # ps) m"
    then obtain m r where eq: "c # cs = m @ r" and l: "list_all2 match_char (p # ps) m"
      by blast
    from l obtain c' m' where m: "m = c' # m'" and mc: "match_char p c'"
      and l': "list_all2 match_char ps m'"
      by (auto simp: list_all2_Cons1)
    from eq m have "c = c'" "cs = m' @ r" by auto
    with mc l' 3 show "match_here (p # ps) (c # cs)" by auto
  qed
qed

lemma search_from_iff:
  "search_from p t \<longleftrightarrow> (\<exists>u m v. t = u @ m @ v \<and> list_all2 match_char p m)"
proof (induction t)
  case Nil
  then show ?case by (auto simp: match_here_Nil)
next
  case (Cons c cs)
  show ?case
  proof
    assume "search_from p (c # cs)"
    then consider "match_here p (c # cs)" | "search_from p cs" by auto
    then show "\<exists>u m v. c # cs = u @ m @ v \<and> list_all2 match_char p m"
    proof cases
      case 1
      then obtain m r where "c # cs = [] @ m @ r \<and> list_all2 match_char p m"
        by (auto simp: match_here_iff)
      then show ?thesis by blast
    next
      case 2
      with Cons obtain u m v where "cs = u @ m @ v" "list_all2 match_char p m" by auto
      then have "c # cs = (c # u) @ m @ v \<and> list_all2 match_char p m" by simp
      then show ?thesis by blast
    qed
  next
    assume "\<exists>u m v. c # cs = u @ m @ v \<and> list_all2 match_char p m"
    then obtain u m v where eq: "c # cs = u @ m @ v" and l: "list_all2 match_char p m"
      by blast
    show "search_from p (c # cs)"
    proof (cases u)
      case Nil
      with eq l have "match_here p (c # cs)" by (auto simp: match_here_iff)
      then show ?thesis by simp
    next
      case (Cons a u')
      with eq have "cs = u' @ m @ v" by simp
      with l Cons.IH have "search_from p cs" by blast
      then show ?thesis by simp
    qed
  qed
qed

lemma literal_match: "CHR ''.'' \<notin> set p \<Longrightarrow> list_all2 match_char p m \<longleftrightarrow> m = p"
proof (induction p arbitrary: m)
  case Nil
  then show ?case by auto
next
  case (Cons a p)
  then show ?case by (cases m) (auto simp: match_char_def)
qed

section \<open>Plan resolution\<close>

lemma merge_modules_ok:
  assumes "cfg_cloudify_agent_module config \<noteq> None \<or> cfg_cloudify_agent_version config \<noteq> None"
  shows "merge_modules mods config =
           Inr \<lparr>core = dict_update (core mods) (core_modules_of config),
                additional = additional mods @ additional_modules_of config,
                agent = Some (case cfg_cloudify_agent_module config of
                                Some v \<Rightarrow> v
                              | None \<Rightarrow> PyStr (DEFAULT_CLOUDIFY_AGENT_URL
                                           (the (cfg_cloudify_agent_version config))))\<rparr>"
  using assms
  by (cases mods) (auto simp: merge_modules_def append_each_eq Let_def split: option.splits)

text \<open>
  Claim C1 does not hold as stated: the core mapping of the plan starts empty and takes
  the keys of \<open>core_modules\<close>, so a catalog slot that the configuration does not mention
  is no key of it, and a key outside the catalog is. With only \<open>my_plugin\<close> configured,
  the core mapping has that one key.
\<close>

theorem core_slots_counterexample:
  "merge_modules initial_modules
     (empty_config\<lparr>cfg_cloudify_agent_version := Some ''1.0'',
                   cfg_core_modules := Some [(''my_plugin'', PyStr ''my-plugin==1.0'')]\<rparr>)
   = Inr \<lparr>core = [(''my_plugin'', PyStr ''my-plugin==1.0'')], additional = [],
          agent = Some (PyStr ''https://github.com/nir0s/cloudify-agent/archive/1.0.tar.gz'')\<rparr>
   \<and> set (dict_keys [(''my_plugin'', PyStr ''my-plugin==1.0'')]) \<noteq> set MODULES_LIST
   \<and> ''cloudify_rest_client'' \<notin> set (dict_keys [(''my_plugin'', PyStr ''my-plugin==1.0'')])"
  by (simp add: empty_config_def merge_modules_def initial_modules_def core_modules_of_def
      additional_modules_of_def DEFAULT_CLOUDIFY_AGENT_URL_def dict_keys_def MODULES_LIST_def)

text \<open>
  Claim C1, amended: for every configuration with an agent reference (and one entry per
  key in \<open>core_modules\<close>), plan resolution succeeds and the core mapping of the plan is
  the \<open>core_modules\<close> mapping of the configuration, empty when there is none. Looking a
  catalog slot up in it gives the configured source when the configuration names the slot,
  and \<open>None\<close>, which is falsy and read as unspecified, when it does not.
\<close>

theorem merge_modules_core:
  assumes "cfg_cloudify_agent_module config \<noteq> None \<or> cfg_cloudify_agent_version config \<noteq> None"
    and "distinct (dict_keys (core_modules_of config))"
  shows "\<exists>mods. merge_modules initial_modules config = Inr mods
           \<and> core mods = core_modules_of config
           \<and> (\<forall>slot \<in> set MODULES_LIST.
                 (\<forall>source. (slot, source) \<in> set (core_modules_of config)
                    \<longrightarrow> dict_get (core mods) slot = source)
               \<and> (slot \<notin> set (dict_keys (core_modules_of config))
                    \<longrightarrow> dict_get (core mods) slot = PyNone
                        \<and> \<not> truthy (dict_get (core mods) slot)))"
proof -
  let ?cm = "core_modules_of config"
  from assms(2) have "dict_update [] ?cm = [] @ ?cm"
    by (intro dict_update_distinct) (simp add: dict_keys_def)
  then have upd: "dict_update (core initial_modules) ?cm = ?cm"
    by (simp add: initial_modules_def)
  have get1: "dict_get ?cm slot = source" if "(slot, source) \<in> set ?cm" for slot source
    using assms(2) that by (simp add: dict_get_distinct dict_keys_def)
  have get2: "dict_get ?cm slot = PyNone" if "slot \<notin> set (dict_keys ?cm)" for slot
    using that by (simp add: dict_get_absent dict_keys_def)
  show ?thesis
    using merge_modules_ok [OF assms(1), of initial_modules] upd get1 get2
    by auto
qed

theorem merge_modules_core_witness:
  "merge_modules initial_modules
     (empty_config\<lparr>cfg_cloudify_agent_version := Some ''1.0'',
                   cfg_core_modules := Some [(''cloudify_diamond_plugin'', PyStr ''exclude'')]\<rparr>)
   = Inr \<lparr>core = [(''cloudify_diamond_plugin'', PyStr ''exclude'')], additional = [],
          agent = Some (PyStr ''https://github.com/nir0s/cloudify-agent/archive/1.0.tar.gz'')\<rparr>
   \<and> dict_get [(''cloudify_diamond_plugin'', PyStr ''exclude'')] ''cloudify_rest_client'' = PyNone"
  using merge_modules_core [of "empty_config\<lparr>cfg_cloudify_agent_version := Some ''1.0'',
                   cfg_core_modules := Some [(''cloudify_diamond_plugin'', PyStr ''exclude'')]\<rparr>"]
  by (simp add: empty_config_def merge_modules_def initial_modules_def core_modules_of_def
      additional_modules_of_def DEFAULT_CLOUDIFY_AGENT_URL_def)

section \<open>The membership check\<close>

lemma re_search_fragment:
  "in_fragment pat \<Longrightarrow>
   re_search pat text = Some (\<exists>u t v. text = u @ t @ v \<and> list_all2 match_char pat t)"
  by (simp add: re_search_def search_from_iff)

lemma check_installed_result:
  "fst (check_installed x module venv st) =
     (case re_search module (lower (listing x venv (world st))) of
        None \<Rightarrow> Inl NotModelled | Some found \<Rightarrow> Inr found)"
  by (simp add: check_installed_def run_def listing_def split: prod.splits option.splits)

text \<open>
  Claim C9: for a module name inside the modelled fragment of patterns,
  \<open>check_installed\<close> answers true exactly when some stretch of the lowercased listing
  matches the name read as a pattern, character by character with \<open>.\<close> as wildcard.
  Consequently a name without wildcard that occurs anywhere in the lowercased listing,
  for instance inside the longer name of another package, is reported as installed.
\<close>

theorem check_installed_is_search:
  assumes "in_fragment module"
  shows "fst (check_installed x module venv st) =
           Inr (\<exists>u t v. lower (listing x venv (world st)) = u @ t @ v
                        \<and> list_all2 match_char module t)
         \<and> (CHR ''.'' \<notin> set module
              \<longrightarrow> lower (listing x venv (world st)) = before @ module @ after
              \<longrightarrow> fst (check_installed x module venv st) = Inr True)"
proof -
  have first: "fst (check_installed x module venv st) =
           Inr (\<exists>u t v. lower (listing x venv (world st)) = u @ t @ v
                        \<and> list_all2 match_char module t)"
    using assms by (simp add: check_installed_result re_search_fragment)
  have "\<exists>u t v. before @ module @ after = u @ t @ v \<and> list_all2 match_char module t"
    if "CHR ''.'' \<notin> set module"
    using that literal_match [of module module] by blast
  with first show ?thesis by auto
qed

theorem check_installed_is_search_witness:
  "in_fragment ''cloudify-agent'' \<and> CHR ''.'' \<notin> set ''cloudify-agent''
   \<and> lower (listing (demo_ext []) ''env''
        (world (demo_state False False ''Cloudify-Agent-Packager==1.0'')))
       = [] @ ''cloudify-agent'' @ ''-packager==1.0''
   \<and> fst (check_installed (demo_ext []) ''cloudify-agent'' ''env''
            (demo_state False False ''Cloudify-Agent-Packager==1.0'')) = Inr True"
  using check_installed_is_search [of "''cloudify-agent''" "demo_ext []" "''env''"
       "demo_state False False ''Cloudify-Agent-Packager==1.0''" "[]" "''-packager==1.0''"]
  by (simp add: string_defs demo_defs utils_defs)

lemma check_result:
  "fst (check x module venv failed st) =
     (case re_search (get_module_name module) (lower (listing x venv (world st))) of
        None \<Rightarrow> Inl NotModelled
      | Some found \<Rightarrow> if found then Inr failed else Inr (failed @ [get_module_name module]))"
proof -
  obtain r st1 where c: "check_installed x (get_module_name module) venv st = (r, st1)"
    by (cases "check_installed x (get_module_name module) venv st")
  from check_installed_result [of x "get_module_name module" venv st] c
  show ?thesis
    by (auto simp: check_def Let_def split: option.splits sum.splits)
qed

lemma lower_char_not_upper: "lower_char y \<notin> set ''ABCDEFGHIJKLMNOPQRSTUVWXYZ''"
proof (cases "map_of (zip ''ABCDEFGHIJKLMNOPQRSTUVWXYZ'' ''abcdefghijklmnopqrstuvwxyz'') y")
  case None
  then have "y \<notin> fst ` set (zip ''ABCDEFGHIJKLMNOPQRSTUVWXYZ'' ''abcdefghijklmnopqrstuvwxyz'')"
    using map_of_eq_None_iff by metis
  then have "y \<notin> set ''ABCDEFGHIJKLMNOPQRSTUVWXYZ''" by simp
  with None show ?thesis unfolding lower_char_def by simp
next
  case (Some l)
  then have "(y, l) \<in> set (zip ''ABCDEFGHIJKLMNOPQRSTUVWXYZ'' ''abcdefghijklmnopqrstuvwxyz'')"
    by (rule map_of_SomeD)
  then have "l \<in> set ''abcdefghijklmnopqrstuvwxyz''" by (rule set_zip_rightD)
  then have "l \<notin> set ''ABCDEFGHIJKLMNOPQRSTUVWXYZ''" by auto
  with Some show ?thesis unfolding lower_char_def by simp
qed

lemma match_char_member:
  "list_all2 match_char pat t \<Longrightarrow> c \<in> set pat \<Longrightarrow> c \<noteq> CHR ''.'' \<Longrightarrow> c \<in> set t"
  by (induction pat t rule: list_all2_induct) (auto simp: match_char_def)

lemma capital_never_found:
  assumes frag: "in_fragment (get_module_name m)"
    and mem: "c \<in> set (get_module_name m)"
    and up: "c \<in> set ''ABCDEFGHIJKLMNOPQRSTUVWXYZ''"
  shows "fst (check x m venv failed st) = Inr (failed @ [get_module_name m])"
proof -
  let ?p = "get_module_name m"
  let ?l = "lower (listing x venv (world st))"
  from up have nd: "c \<noteq> CHR ''.''" by auto
  have "\<not> (\<exists>u t v. ?l = u @ t @ v \<and> list_all2 match_char ?p t)"
  proof
    assume "\<exists>u t v. ?l = u @ t @ v \<and> list_all2 match_char ?p t"
    then obtain u t v where l: "?l = u @ t @ v" and a: "list_all2 match_char ?p t"
      by (elim exE conjE)
    from match_char_member [OF a mem nd] have "c \<in> set t" .
    with l have "c \<in> set ?l" by simp
    then obtain y where "c = lower_char y" by (auto simp: lower_def)
    with lower_char_not_upper [of y] up show False by simp
  qed
  with frag have "re_search ?p ?l = Some False" by (simp add: re_search_fragment)
  then show ?thesis by (simp add: check_result)
qed

text \<open>
  Claim C2: the comparison is meant to ignore letter case and to take underscores and
  hyphens as the same, and the source does lowercase the listing and replace the
  underscores of the declared name. It does neither on the other side. The declared name
  reaches \<open>re.search\<close> with its capitals, so \<open>Cloudify_Script_Plugin\<close> is reported
  missing against the listing \<open>cloudify-script-plugin==1.2\<close>, in which
  \<open>cloudify_script_plugin\<close> is found, and \<open>PyYAML\<close> is reported missing against its own
  entry \<open>PyYAML==3.10\<close>; by \<open>capital_never_found\<close> no listing at all satisfies a name with
  a capital. An underscore in the listing stays, so \<open>cloudify_script_plugin\<close> is reported
  missing against \<open>cloudify_script_plugin==1.2\<close>.
\<close>

theorem declared_case_failing_input:
  "fst (check (demo_ext []) ''cloudify_script_plugin'' ''env'' []
          (demo_state False False ''cloudify-script-plugin==1.2'')) = Inr []
   \<and> fst (check (demo_ext []) ''Cloudify_Script_Plugin'' ''env'' []
          (demo_state False False ''cloudify-script-plugin==1.2''))
       = Inr [''Cloudify-Script-Plugin'']
   \<and> fst (check (demo_ext []) ''PyYAML'' ''env'' []
          (demo_state False False ''PyYAML==3.10'')) = Inr [''PyYAML'']
   \<and> fst (check (demo_ext []) ''cloudify_script_plugin'' ''env'' []
          (demo_state False False ''cloudify_script_plugin==1.2''))
       = Inr [''cloudify-script-plugin'']"
  by (simp add: check_def Let_def string_defs demo_defs utils_defs)

section \<open>Validation\<close>

lemma check_installed_ro:
  assumes "freeze_readonly x venv"
  shows "check_installed x m venv st =
           (case re_search m (lower (listing x venv (world st))) of
              None \<Rightarrow> Inl NotModelled | Some found \<Rightarrow> Inr found,
            st\<lparr>trace := trace st @ checks x venv (world st) [m]\<rparr>)"
proof -
  obtain p w where pw: "subprocess_popen x (venv @ ''/bin/pip freeze'') (world st) = (p, w)"
    by (cases "subprocess_popen x (venv @ ''/bin/pip freeze'') (world st)")
  with assms have "w = world st"
    unfolding freeze_readonly_def by (metis snd_conv)
  with pw show ?thesis
    by (simp add: check_installed_def run_def listing_def checks_def split: option.splits)
qed

lemma check_ro:
  assumes "freeze_readonly x venv"
  shows "check x m venv failed st =
           (case re_search (get_module_name m) (lower (listing x venv (world st))) of
              None \<Rightarrow> Inl NotModelled
            | Some found \<Rightarrow>
                if found then Inr failed else Inr (failed @ [get_module_name m]),
            st\<lparr>trace := trace st @ checks x venv (world st) [get_module_name m]\<rparr>)"
  by (simp add: check_def check_installed_ro [OF assms] Let_def split: option.splits)

lemma check_exact:
  assumes "freeze_readonly x venv" "in_fragment (get_module_name m)"
  shows "check x m venv failed st =
           (Inr (failed @ missing (listing x venv (world st)) [get_module_name m]),
            st\<lparr>trace := trace st @ checks x venv (world st) [get_module_name m]\<rparr>)"
  using assms(2)
  by (simp add: check_ro [OF assms(1)] missing_def re_search_def)

lemma missing_append: "missing l (a @ b) = missing l a @ missing l b"
  by (simp add: missing_def)

lemma checks_append: "checks x venv w (a @ b) = checks x venv w a @ checks x venv w b"
  by (simp add: checks_def)

lemma check_core_exact:
  assumes "freeze_readonly x venv"
    and "\<forall>n \<in> set (map get_module_name (map fst (filter (\<lambda>item. located (snd item)) items))).
           in_fragment n"
  shows "check_core x items venv failed st =
           (Inr (failed @ missing (listing x venv (world st))
                   (map get_module_name (map fst (filter (\<lambda>item. located (snd item)) items)))),
            st\<lparr>trace := trace st @ checks x venv (world st)
                   (map get_module_name (map fst (filter (\<lambda>item. located (snd item)) items)))\<rparr>)"
  using assms(2)
proof (induction items arbitrary: failed st)
  case Nil
  then show ?case by (simp add: missing_def checks_def)
next
  case (Cons item items)
  obtain k s where item: "item = (k, s)" by (cases item)
  show ?case
  proof (cases "located s")
    case True
    with Cons.prems item have frag: "in_fragment (get_module_name k)" by simp
    from Cons.prems have rest: "\<forall>n \<in> set (map get_module_name
        (map fst (filter (\<lambda>item. located (snd item)) items))). in_fragment n"
      by simp
    show ?thesis
      using True item
      by (simp add: located_def [symmetric] check_exact [OF assms(1) frag] Cons.IH [OF rest]
          missing_def checks_def)
  next
    case False
    from Cons.prems have rest: "\<forall>n \<in> set (map get_module_name
        (map fst (filter (\<lambda>item. located (snd item)) items))). in_fragment n"
      using False item by simp
    show ?thesis
      using False item by (simp add: located_def [symmetric] Cons.IH [OF rest])
  qed
qed

lemma check_additional_exact:
  assumes "freeze_readonly x venv"
    and "\<forall>n \<in> set (map get_module_name ms). in_fragment n"
  shows "check_additional x ms venv failed st =
           (Inr (failed @ missing (listing x venv (world st)) (map get_module_name ms)),
            st\<lparr>trace := trace st @ checks x venv (world st) (map get_module_name ms)\<rparr>)"
  using assms(2)
proof (induction ms arbitrary: failed st)
  case Nil
  then show ?case by (simp add: missing_def checks_def)
next
  case (Cons m ms)
  from Cons.prems have frag: "in_fragment (get_module_name m)" by simp
  from Cons.prems have rest: "\<forall>n \<in> set (map get_module_name ms). in_fragment n" by simp
  show ?case
    by (simp add: check_exact [OF assms(1) frag] Cons.IH [OF rest]
          missing_def checks_def)
qed

lemma collect_failed_exact:
  assumes ro: "freeze_readonly x venv"
    and ag: "agent mods \<noteq> None"
    and frag: "\<forall>n \<in> set (names_to_check mods). in_fragment n"
  shows "collect_failed x mods venv st =
           (Inr (missing (listing x venv (world st)) (names_to_check mods)),
            st\<lparr>trace := trace st @ checks x venv (world st) (names_to_check mods)\<rparr>)"
proof -
  let ?cn = "map get_module_name (map fst (filter (\<lambda>item. located (snd item)) (core mods)))"
  let ?an = "map get_module_name (additional mods)"
  have names: "names_to_check mods = ?cn @ ?an @ [''cloudify-agent'']"
    by (simp add: names_to_check_def)
  from frag names have f1: "\<forall>n \<in> set ?cn. in_fragment n"
    and f2: "\<forall>n \<in> set ?an. in_fragment n"
    and f3: "in_fragment (get_module_name ''cloudify-agent'')"
    by (auto simp: get_module_name_def)
  have g: "get_module_name ''cloudify-agent'' = ''cloudify-agent''"
    by (simp add: get_module_name_def)
  show ?thesis
    unfolding names
    using ag
    by (simp add: collect_failed_def then_do_def check_core_exact [OF ro f1]
        check_additional_exact [OF ro f2] check_exact [OF ro f3] g
        missing_append checks_append)
qed

lemma validate_exact:
  assumes ro: "freeze_readonly x venv"
    and ag: "agent mods \<noteq> None"
    and frag: "\<forall>n \<in> set (names_to_check mods). in_fragment n"
  shows "validate x mods venv st =
           (if missing (listing x venv (world st)) (names_to_check mods) = []
            then Inr () else Inl (Exit 10),
            st\<lparr>trace := trace st @ checks x venv (world st) (names_to_check mods)\<rparr>)"
  by (simp add: validate_def then_do_def collect_failed_exact [OF assms] ret_def fail_def)

text \<open>
  Claim C3: in a world where \<open>pip freeze\<close> changes nothing, for a plan with an agent
  entry and names inside the modelled fragment of patterns, validation runs exactly one
  membership check for each core entry whose source is a location, each additional module
  and the fixed name \<open>cloudify-agent\<close>, in one pass over all of them; the list it
  collects holds every one of these names that the listing does not show; and the run
  ends with exit status 10 exactly when that list is not empty.
\<close>

theorem validate_checks_all:
  assumes "freeze_readonly x venv"
    and "agent mods \<noteq> None"
    and "\<forall>n \<in> set (names_to_check mods). in_fragment n"
  shows "collect_failed x mods venv st =
           (Inr (missing (listing x venv (world st)) (names_to_check mods)),
            st\<lparr>trace := trace st @ checks x venv (world st) (names_to_check mods)\<rparr>)
         \<and> validate x mods venv st =
           (if missing (listing x venv (world st)) (names_to_check mods) = []
            then Inr () else Inl (Exit 10),
            st\<lparr>trace := trace st @ checks x venv (world st) (names_to_check mods)\<rparr>)
         \<and> set (missing (listing x venv (world st)) (names_to_check mods)) =
             {n \<in> set (names_to_check mods).
                \<not> (\<exists>u t v. lower (listing x venv (world st)) = u @ t @ v
                          \<and> list_all2 match_char n t)}"
proof -
  have h: "(re_search n hay = Some False) =
          (\<not> (\<exists>u t v. hay = u @ t @ v \<and> list_all2 match_char n t))"
    if "n \<in> set (names_to_check mods)" for n hay
    using that assms(3) by (simp add: re_search_fragment)
  have "missing l (names_to_check mods) =
          filter (\<lambda>n. \<not> (\<exists>u t v. lower l = u @ t @ v \<and> list_all2 match_char n t))
            (names_to_check mods)" for l
    unfolding missing_def by (rule filter_cong [OF refl]) (rule h)
  then have "set (missing l (names_to_check mods)) =
             {n \<in> set (names_to_check mods).
                \<not> (\<exists>u t v. lower l = u @ t @ v \<and> list_all2 match_char n t)}" for l
    by (simp only: set_filter)
  then show ?thesis
    using collect_failed_exact [OF assms] validate_exact [OF assms] by simp
qed

theorem validate_checks_all_witness:
  "validate (demo_ext [])
     \<lparr>core = [(''cloudify_rest_client'', PyStr ''cloudify-rest-client==3.1''),
              (''cloudify_diamond_plugin'', PyStr ''exclude'')],
      additional = [''pyyaml''], agent = Some (PyStr ''agent-loc'')\<rparr> ''env''
     (demo_state False False ''cloudify-rest-client==3.1 cloudify-agent==3.1'')
   = (Inl (Exit 10),
      \<lparr>world = \<lparr>venv_present = False, tar_present = False,
                 installed = ''cloudify-rest-client==3.1 cloudify-agent==3.1''\<rparr>,
       trace =
         [(CheckInstalled ''cloudify-rest-client'' ''env'', ''env/bin/pip freeze'',
           \<lparr>returncode = 0, stdout = ''cloudify-rest-client==3.1 cloudify-agent==3.1''\<rparr>),
          (CheckInstalled ''pyyaml'' ''env'', ''env/bin/pip freeze'',
           \<lparr>returncode = 0, stdout = ''cloudify-rest-client==3.1 cloudify-agent==3.1''\<rparr>),
          (CheckInstalled ''cloudify-agent'' ''env'', ''env/bin/pip freeze'',
           \<lparr>returncode = 0, stdout = ''cloudify-rest-client==3.1 cloudify-agent==3.1''\<rparr>)]\<rparr>)
   \<and> missing ''cloudify-rest-client==3.1 cloudify-agent==3.1''
        (names_to_check
           \<lparr>core = [(''cloudify_rest_client'', PyStr ''cloudify-rest-client==3.1''),
                    (''cloudify_diamond_plugin'', PyStr ''exclude'')],
            additional = [''pyyaml''], agent = Some (PyStr ''agent-loc'')\<rparr>)
      = [''pyyaml'']"
proof -
  let ?x = "demo_ext []"
  let ?mods = "\<lparr>core = [(''cloudify_rest_client'', PyStr ''cloudify-rest-client==3.1''),
              (''cloudify_diamond_plugin'', PyStr ''exclude'')],
      additional = [''pyyaml''], agent = Some (PyStr ''agent-loc'')\<rparr>"
  let ?st = "demo_state False False ''cloudify-rest-client==3.1 cloudify-agent==3.1''"
  have ro: "freeze_readonly ?x ''env''" by (simp add: demo_defs)
  have ag: "agent ?mods \<noteq> None" by simp
  have names: "names_to_check ?mods = [''cloudify-rest-client'', ''pyyaml'', ''cloudify-agent'']"
    by (simp add: names_to_check_def located_def get_module_name_def)
  have frag: "\<forall>n \<in> set (names_to_check ?mods). in_fragment n"
    unfolding names by (simp add: in_fragment_def re_special_def)
  have l: "listing ?x ''env'' (world ?st) = ''cloudify-rest-client==3.1 cloudify-agent==3.1''"
    by (simp add: demo_defs)
  have m: "missing ''cloudify-rest-client==3.1 cloudify-agent==3.1'' (names_to_check ?mods)
             = [''pyyaml'']"
    unfolding names by (simp add: missing_def string_defs)
  from validate_checks_all [OF ro ag frag, of ?st]
  have "validate ?x ?mods ''env'' ?st =
           (if missing (listing ?x ''env'' (world ?st)) (names_to_check ?mods) = []
            then Inr () else Inl (Exit 10),
            ?st\<lparr>trace := trace ?st @ checks ?x ''env'' (world ?st) (names_to_check ?mods)\<rparr>)"
    by (rule conjunct1 [OF conjunct2])
  then show ?thesis
    using m unfolding l names by (simp add: checks_def demo_defs)
qed

lemma check_world:
  assumes "freeze_readonly x venv"
  shows "world (snd (check x m venv failed st)) = world st"
  by (simp add: check_ro [OF assms])

lemma check_same:
  assumes "freeze_readonly x venv" "world st' = world st"
  shows "fst (check x m venv failed st') = fst (check x m venv failed st)"
  using assms(2) by (simp add: check_ro [OF assms(1)])

lemma check_core_stable:
  assumes ro: "freeze_readonly x venv"
  shows "world st' = world st \<Longrightarrow>
         world (snd (check_core x items venv failed st)) = world st
         \<and> fst (check_core x items venv failed st') = fst (check_core x items venv failed st)"
proof (induction items arbitrary: failed st st')
  case Nil
  then show ?case by simp
next
  case (Cons item items)
  obtain k s where item: "item = (k, s)" by (cases item)
  obtain r st1 where c: "check x k venv failed st = (r, st1)"
    by (cases "check x k venv failed st")
  obtain r' st1' where c': "check x k venv failed st' = (r', st1')"
    by (cases "check x k venv failed st'")
  from check_world [OF ro, where m = k and failed = failed and st = st] c have w1: "world st1 = world st" by simp
  from check_world [OF ro, where m = k and failed = failed and st = st'] c' Cons.prems have w1': "world st1' = world st1"
    using w1 by simp
  from check_same [OF ro Cons.prems, where m = k and failed = failed] c c' have rr: "r' = r" by simp
  show ?case
  proof (cases "located s")
    case True
    show ?thesis
    proof (cases r)
      case (Inl e)
      with True item c c' rr w1 show ?thesis by (simp add: located_def [symmetric])
    next
      case (Inr failed1)
      with True item c c' rr w1 Cons.IH [OF w1', where failed = failed1] show ?thesis
        by (simp add: located_def [symmetric])
    qed
  next
    case False
    with item Cons.IH [OF Cons.prems, where failed = failed] show ?thesis
      by (simp add: located_def [symmetric])
  qed
qed

lemma check_additional_stable:
  assumes ro: "freeze_readonly x venv"
  shows "world st' = world st \<Longrightarrow>
         world (snd (check_additional x ms venv failed st)) = world st
         \<and> fst (check_additional x ms venv failed st')
             = fst (check_additional x ms venv failed st)"
proof (induction ms arbitrary: failed st st')
  case Nil
  then show ?case by simp
next
  case (Cons m ms)
  obtain r st1 where c: "check x m venv failed st = (r, st1)"
    by (cases "check x m venv failed st")
  obtain r' st1' where c': "check x m venv failed st' = (r', st1')"
    by (cases "check x m venv failed st'")
  from check_world [OF ro, where m = m and failed = failed and st = st] c have w1: "world st1 = world st" by simp
  from check_world [OF ro, where m = m and failed = failed and st = st'] c' Cons.prems have w1': "world st1' = world st1"
    using w1 by simp
  from check_same [OF ro Cons.prems, where m = m and failed = failed] c c' have rr: "r' = r" by simp
  show ?case
  proof (cases r)
    case (Inl e)
    with c c' rr w1 show ?thesis by simp
  next
    case (Inr failed1)
    with c c' rr w1 Cons.IH [OF w1', where failed = failed1] show ?thesis by simp
  qed
qed

lemma collect_failed_stable:
  assumes ro: "freeze_readonly x venv" and w: "world st' = world st"
  shows "world (snd (collect_failed x mods venv st)) = world st
         \<and> fst (collect_failed x mods venv st') = fst (collect_failed x mods venv st)"
proof -
  obtain r1 s1 where a: "check_core x (core mods) venv [] st = (r1, s1)"
    by (cases "check_core x (core mods) venv [] st")
  obtain r1' s1' where a': "check_core x (core mods) venv [] st' = (r1', s1')"
    by (cases "check_core x (core mods) venv [] st'")
  from check_core_stable [OF ro w, where items = "core mods" and failed = "[]"] a a'
  have w1: "world s1 = world st" and r1: "r1' = r1" by simp_all
  from check_core_stable [OF ro refl, where st = st' and items = "core mods" and failed = "[]"] a' w
  have w1': "world s1' = world s1" using w1 by simp
  show ?thesis
  proof (cases r1)
    case (Inl e)
    with a a' r1 w1 show ?thesis by (simp add: collect_failed_def then_do_def)
  next
    case (Inr f1)
    obtain r2 s2 where b: "check_additional x (additional mods) venv f1 s1 = (r2, s2)"
      by (cases "check_additional x (additional mods) venv f1 s1")
    obtain r2' s2' where b': "check_additional x (additional mods) venv f1 s1' = (r2', s2')"
      by (cases "check_additional x (additional mods) venv f1 s1'")
    from check_additional_stable [OF ro w1', where ms = "additional mods" and failed = f1] b b'
    have w2: "world s2 = world s1" and r2: "r2' = r2" by simp_all
    from check_additional_stable [OF ro refl, where st = s1' and ms = "additional mods" and failed = f1] b' w1'
    have w2': "world s2' = world s2" using w2 by simp
    show ?thesis
    proof (cases r2)
      case (Inl e)
      with Inr a a' b b' r1 r2 w1 w2 show ?thesis
        by (simp add: collect_failed_def then_do_def)
    next
      case (Inr f2)
      with \<open>r1 = Inr f1\<close> a a' b b' r1 r2 w1 w2 w2'
        check_world [OF ro, where m = "''cloudify-agent''" and failed = f2 and st = s2]
        check_same [OF ro w2', where m = "''cloudify-agent''" and failed = f2]
      show ?thesis
        by (simp add: collect_failed_def then_do_def ret_def)
    qed
  qed
qed

lemma validate_stable:
  assumes ro: "freeze_readonly x venv" and w: "world st' = world st"
  shows "world (snd (validate x mods venv st)) = world st
         \<and> fst (validate x mods venv st') = fst (validate x mods venv st)"
proof -
  obtain r s1 where a: "collect_failed x mods venv st = (r, s1)"
    by (cases "collect_failed x mods venv st")
  obtain r' s1' where a': "collect_failed x mods venv st' = (r', s1')"
    by (cases "collect_failed x mods venv st'")
  from collect_failed_stable [OF ro w, where mods = mods] a a'
  have "world s1 = world st" "r' = r" by simp_all
  with a a' show ?thesis
    by (cases r) (simp_all add: validate_def then_do_def ret_def fail_def)
qed

text \<open>
  Claim C8: when \<open>pip freeze\<close> leaves the world unchanged, a second validation right
  after the first ends the same way, collects the same missing names, and the world is
  still the one before the first run.
\<close>

theorem validate_twice:
  assumes "freeze_readonly x venv"
    and "validate x mods venv st = (r1, st1)"
    and "validate x mods venv st1 = (r2, st2)"
  shows "r2 = r1
         \<and> fst (collect_failed x mods venv st1) = fst (collect_failed x mods venv st)
         \<and> world st2 = world st"
proof -
  from validate_stable [OF assms(1) refl, where st = st and mods = mods] assms(2)
  have w1: "world st1 = world st" by simp
  from validate_stable [OF assms(1) w1, where mods = mods] assms(2,3)
  have "r2 = r1" by simp
  moreover from validate_stable [OF assms(1) refl, where st = st1 and mods = mods] assms(3) w1
  have "world st2 = world st" by simp
  moreover from collect_failed_stable [OF assms(1) w1, where mods = mods]
  have "fst (collect_failed x mods venv st1) = fst (collect_failed x mods venv st)" by simp
  ultimately show ?thesis by simp
qed

theorem validate_twice_witness:
  "fst (validate (demo_ext [])
          \<lparr>core = [(''cloudify_rest_client'', PyStr ''cloudify-rest-client==3.1'')],
           additional = [''pyyaml''], agent = Some (PyStr ''agent-loc'')\<rparr> ''env''
          (snd (validate (demo_ext [])
             \<lparr>core = [(''cloudify_rest_client'', PyStr ''cloudify-rest-client==3.1'')],
              additional = [''pyyaml''], agent = Some (PyStr ''agent-loc'')\<rparr> ''env''
             (demo_state False False ''cloudify-rest-client==3.1 cloudify-agent==3.1''))))
   = fst (validate (demo_ext [])
          \<lparr>core = [(''cloudify_rest_client'', PyStr ''cloudify-rest-client==3.1'')],
           additional = [''pyyaml''], agent = Some (PyStr ''agent-loc'')\<rparr> ''env''
          (demo_state False False ''cloudify-rest-client==3.1 cloudify-agent==3.1''))"
proof -
  let ?x = "demo_ext []"
  let ?mods = "\<lparr>core = [(''cloudify_rest_client'', PyStr ''cloudify-rest-client==3.1'')],
           additional = [''pyyaml''], agent = Some (PyStr ''agent-loc'')\<rparr>"
  let ?st = "demo_state False False ''cloudify-rest-client==3.1 cloudify-agent==3.1''"
  have ro: "freeze_readonly ?x ''env''" by (simp add: demo_defs)
  obtain r1 s1 where a: "validate ?x ?mods ''env'' ?st = (r1, s1)"
    by (cases "validate ?x ?mods ''env'' ?st")
  obtain r2 s2 where b: "validate ?x ?mods ''env'' s1 = (r2, s2)"
    by (cases "validate ?x ?mods ''env'' s1")
  from validate_twice [OF ro a b] have "r2 = r1" by simp
  with a b show ?thesis by simp
qed

section \<open>Histories of the steps of a run\<close>

lemma installs_append: "installs (a @ b) = installs a @ installs b"
  by (induction a rule: installs.induct) auto

lemma uninstalls_append: "uninstalls (a @ b) = uninstalls a @ uninstalls b"
  by (induction a rule: uninstalls.induct) auto

lemma setup_only_uninstalls: "setup_only T \<Longrightarrow> uninstalls T = []"
  unfolding setup_only_def
  by (induction T rule: uninstalls.induct) auto

lemma yieldsI:
  "(\<And>st. \<exists>T. trace (snd (f st)) = trace st @ T \<and> Q T (fst (f st))) \<Longrightarrow> yields f Q"
  by (simp add: yields_def)

lemma yieldsD:
  "yields f Q \<Longrightarrow> \<exists>T. trace (snd (f st)) = trace st @ T \<and> Q T (fst (f st))"
  by (simp add: yields_def)

lemma yields_weaken: "yields f Q \<Longrightarrow> (\<And>T r. Q T r \<Longrightarrow> Q' T r) \<Longrightarrow> yields f Q'"
  unfolding yields_def by blast

lemma yields_ret: "Q [] (Inr v) \<Longrightarrow> yields (ret v) Q"
  by (simp add: yields_def ret_def)

lemma yields_fail: "Q [] (Inl e) \<Longrightarrow> yields (fail e) Q"
  by (simp add: yields_def fail_def)

lemma yields_then_do:
  assumes f: "yields f Qf"
    and g: "\<And>v. yields (g v) (Qg v)"
    and ab: "\<And>T e. Qf T (Inl e) \<Longrightarrow> Q T (Inl e)"
    and ok: "\<And>T v T' r. Qf T (Inr v) \<Longrightarrow> Qg v T' r \<Longrightarrow> Q (T @ T') r"
  shows "yields (then_do f g) Q"
proof (rule yieldsI)
  fix st
  obtain r st1 where fr: "f st = (r, st1)" by (cases "f st")
  from yieldsD [OF f, of st] fr obtain T where T: "trace st1 = trace st @ T" and q: "Qf T r"
    by auto
  show "\<exists>T. trace (snd (then_do f g st)) = trace st @ T \<and> Q T (fst (then_do f g st))"
  proof (cases r)
    case (Inl e)
    with fr T q ab [of T e] show ?thesis by (auto simp: then_do_def)
  next
    case (Inr v)
    from yieldsD [OF g, of v st1] obtain T' where
      T': "trace (snd (g v st1)) = trace st1 @ T'" and q': "Qg v T' (fst (g v st1))"
      by auto
    from Inr q q' have "Q (T @ T') (fst (g v st1))" by (intro ok) auto
    with Inr fr T T' show ?thesis by (auto simp: then_do_def)
  qed
qed

lemma early_then_early:
  assumes "yields f (early E1)" and "\<And>v. yields (g v) (early E2)"
  shows "yields (then_do f g) (early (E1 @ E2))"
  using assms
  by (rule yields_then_do) (auto simp: early_def setup_only_def installs_append)

lemma early_then_staged:
  fixes f :: "('w, 'a) action" and g :: "'a \<Rightarrow> ('w, 'b) action"
  assumes "yields f (early E1)" and "\<And>v. yields (g v) (staged E2)"
  shows "yields (then_do f g) (staged (E1 @ E2))"
  using assms
proof (rule yields_then_do)
  fix T e assume "early E1 T (Inl e :: abort + 'a)"
  then have "T = T @ [] \<and> setup_only T \<and> installs [] = []
        \<and> prefix (installs T) (E1 @ E2)"
    by (auto simp: early_def setup_only_def)
  then show "staged (E1 @ E2) T (Inl e :: abort + 'b)"
    unfolding staged_def by - (rule exI [of _ T], rule exI [of _ "[]"], auto)
next
  fix T v T' and r :: "abort + 'b"
  assume a: "early E1 T (Inr v :: abort + 'a)" and b: "staged E2 T' r"
  from b obtain T1 T2 where s: "T' = T1 @ T2" "setup_only T1" "installs T2 = []"
    "prefix (installs T1) E2" "T2 \<noteq> [] \<or> \<not> isl r \<longrightarrow> installs T1 = E2"
    unfolding staged_def by blast
  from a have e: "setup_only T" "installs T = E1" by (auto simp: early_def setup_only_def)
  from s e have "T @ T' = (T @ T1) @ T2 \<and> setup_only (T @ T1) \<and> installs T2 = []
      \<and> prefix (installs (T @ T1)) (E1 @ E2)
      \<and> (T2 \<noteq> [] \<or> \<not> isl r \<longrightarrow> installs (T @ T1) = E1 @ E2)"
    by (auto simp: installs_append setup_only_def)
  then show "staged (E1 @ E2) (T @ T') r"
    unfolding staged_def by - (rule exI [of _ "T @ T1"], rule exI [of _ T2], auto)
qed

lemma early_then_late:
  fixes f :: "('w, 'a) action" and g :: "'a \<Rightarrow> ('w, 'b) action"
  assumes "yields f (early E)" and "\<And>v. yields (g v) late"
  shows "yields (then_do f g) (staged E)"
  using assms
proof (rule yields_then_do)
  fix T e assume "early E T (Inl e :: abort + 'a)"
  then have "T = T @ [] \<and> setup_only T \<and> installs [] = [] \<and> prefix (installs T) E"
    by (auto simp: early_def setup_only_def)
  then show "staged E T (Inl e :: abort + 'b)"
    unfolding staged_def by - (rule exI [of _ T], rule exI [of _ "[]"], auto)
next
  fix T v T' and r :: "abort + 'b"
  assume a: "early E T (Inr v :: abort + 'a)" and b: "late T' r"
  then have "T @ T' = T @ T' \<and> setup_only T \<and> installs T' = []
      \<and> prefix (installs T) E \<and> installs T = E"
    by (auto simp: early_def setup_only_def late_def)
  then show "staged E (T @ T') r"
    unfolding staged_def by - (rule exI [of _ T], rule exI [of _ T'], auto)
qed

lemma staged_then_late:
  fixes f :: "('w, 'a) action" and g :: "'a \<Rightarrow> ('w, 'b) action"
  assumes "yields f (staged E)" and "\<And>v. yields (g v) late"
  shows "yields (then_do f g) (staged E)"
  using assms
proof (rule yields_then_do)
  fix T e assume "staged E T (Inl e :: abort + 'a)"
  then show "staged E T (Inl e :: abort + 'b)"
    unfolding staged_def by auto
next
  fix T v T' and r :: "abort + 'b"
  assume a: "staged E T (Inr v :: abort + 'a)" and b: "late T' r"
  from a obtain T1 T2 where s: "T = T1 @ T2" "setup_only T1" "installs T2 = []"
    "prefix (installs T1) E" "installs T1 = E"
    unfolding staged_def by auto
  with b have "T @ T' = T1 @ (T2 @ T') \<and> setup_only T1 \<and> installs (T2 @ T') = []
      \<and> prefix (installs T1) E \<and> installs T1 = E"
    by (auto simp: late_def installs_append)
  then show "staged E (T @ T') r"
    unfolding staged_def by auto
qed

lemma late_then_late:
  assumes "yields f late" and "\<And>v. yields (g v) late"
  shows "yields (then_do f g) late"
  using assms
  by (rule yields_then_do) (auto simp: late_def installs_append)

lemma yields_make_virtualenv: "yields (make_virtualenv x v py) (early [])"
  by (rule yieldsI)
    (auto simp: make_virtualenv_def run_def early_def setup_only_def split: prod.splits)

lemma yields_install_module: "yields (install_module x m v) (early [m])"
  by (rule yieldsI)
    (auto simp: install_module_def run_def early_def setup_only_def Let_def split: prod.splits)

lemma yields_uninstall_module: "yields (uninstall_module x m v) late"
  by (rule yieldsI) (auto simp: uninstall_module_def run_def late_def split: prod.splits)

lemma yields_check_installed: "yields (check_installed x m v) late"
  by (rule yieldsI)
    (auto simp: check_installed_def run_def late_def split: prod.splits option.splits)

lemma yields_get_installed: "yields (get_installed x v) late"
  by (rule yieldsI) (auto simp: get_installed_def run_def late_def split: prod.splits)

lemma yields_tar: "yields (tar x a b) late"
  by (rule yieldsI) (auto simp: tar_def run_def late_def split: prod.splits)

lemma yields_remove_virtualenv: "yields (remove_virtualenv x v) late"
  by (rule yieldsI) (auto simp: remove_virtualenv_def late_def split: option.splits)

lemma yields_ensure_virtualenv:
  fixes x :: "'w ext"
  shows "yields (ensure_virtualenv x v py force) (early [])"
proof (rule yieldsI)
  fix st :: "'w state"
  have a: "\<exists>T. trace (snd (make_virtualenv x v py s)) = trace st @ T
        \<and> early [] T (fst (make_virtualenv x v py s))"
    if "trace s = trace st" for s
    using yieldsD [OF yields_make_virtualenv, of x v py s] that by simp
  have b: "\<exists>T. trace st = trace st @ T \<and> early [] T (Inl e :: abort + unit)" for e
    by (simp add: early_def setup_only_def)
  show "\<exists>T. trace (snd (ensure_virtualenv x v py force st)) = trace st @ T
        \<and> early [] T (fst (ensure_virtualenv x v py force st))"
    using a b by (simp add: ensure_virtualenv_def split: option.splits)
qed

lemma yields_ensure_output_free: "yields (ensure_output_free x t force) (early [])"
  by (rule yieldsI) (auto simp: ensure_output_free_def early_def setup_only_def split: option.splits)

lemma install_each_Cons:
  "install_each x (m # ms) v = then_do (install_module x m v) (\<lambda>u. install_each x ms v)"
  by (rule ext) (simp add: then_do_def split: prod.splits sum.splits)

lemma yields_install_each: "yields (install_each x ms v) (early ms)"
proof (induction ms)
  case Nil
  have "install_each x [] v = ret ()" by (rule ext) (simp add: ret_def)
  then show ?case by (simp add: yields_ret early_def setup_only_def)
next
  case (Cons m ms)
  from early_then_early [OF yields_install_module, of "\<lambda>u. install_each x ms v" ms x m v] Cons
  show ?case by (simp add: install_each_Cons)
qed

lemma install_core_modules_Cons:
  "install_core_modules x d (m # ms) v =
     (if located (dict_get d m)
      then then_do (install_module x (str_of (dict_get d m)) v)
             (\<lambda>u. install_core_modules x d ms v)
      else install_core_modules x d ms v)"
  by (rule ext) (auto simp: then_do_def located_def split: prod.splits sum.splits)

lemma yields_install_core_modules:
  "yields (install_core_modules x d ms v) (early (core_sources d ms))"
proof (induction ms)
  case Nil
  have "install_core_modules x d [] v = ret ()" by (rule ext) (simp add: ret_def)
  then show ?case by (simp add: yields_ret early_def setup_only_def core_sources_def)
next
  case (Cons m ms)
  show ?case
  proof (cases "located (dict_get d m)")
    case True
    from early_then_early [OF yields_install_module,
        of "\<lambda>u. install_core_modules x d ms v" "core_sources d ms" x "str_of (dict_get d m)" v]
      Cons True
    show ?thesis by (simp add: install_core_modules_Cons core_sources_def)
  next
    case False
    with Cons show ?thesis by (simp add: install_core_modules_Cons core_sources_def)
  qed
qed

lemma yields_install_agent: "yields (install_agent x mods v) (early (agent_source mods))"
proof (cases "agent mods")
  case None
  then have "install_agent x mods v = ret ()"
    by (intro ext) (simp add: install_agent_def ret_def)
  with None show ?thesis by (simp add: yields_ret early_def setup_only_def agent_source_def)
next
  case (Some a)
  show ?thesis
  proof (cases "truthy a")
    case True
    with Some have "install_agent x mods v = install_module x (str_of a) v"
      by (intro ext) (simp add: install_agent_def)
    with Some True show ?thesis by (simp add: yields_install_module agent_source_def)
  next
    case False
    with Some have "install_agent x mods v = ret ()"
      by (intro ext) (simp add: install_agent_def ret_def)
    with Some False show ?thesis by (simp add: yields_ret early_def setup_only_def agent_source_def)
  qed
qed

lemma uninstall_excluded_Cons:
  "uninstall_excluded x d (m # ms) v =
     (if dict_get d m = PyStr ''exclude''
      then then_do (check_installed x (get_module_name m) v)
             (\<lambda>found. if found
                       then then_do (uninstall_module x (get_module_name m) v)
                              (\<lambda>u. uninstall_excluded x d ms v)
                       else uninstall_excluded x d ms v)
      else uninstall_excluded x d ms v)"
  by (rule ext) (auto simp: then_do_def Let_def split: prod.splits sum.splits)

lemma yields_uninstall_excluded: "yields (uninstall_excluded x d ms v) late"
proof (induction ms)
  case Nil
  have "uninstall_excluded x d [] v = ret ()" by (rule ext) (simp add: ret_def)
  then show ?case by (simp add: yields_ret late_def)
next
  case (Cons m ms)
  have "yields (then_do (uninstall_module x (get_module_name m) v)
                  (\<lambda>u. uninstall_excluded x d ms v)) late"
    using yields_uninstall_module Cons by (rule late_then_late)
  with Cons have "yields (if found
                       then then_do (uninstall_module x (get_module_name m) v)
                              (\<lambda>u. uninstall_excluded x d ms v)
                       else uninstall_excluded x d ms v) late" for found
    by simp
  with yields_check_installed
  have "yields (then_do (check_installed x (get_module_name m) v)
             (\<lambda>found. if found
                       then then_do (uninstall_module x (get_module_name m) v)
                              (\<lambda>u. uninstall_excluded x d ms v)
                       else uninstall_excluded x d ms v)) late"
    by (rule late_then_late)
  with Cons show ?case by (simp add: uninstall_excluded_Cons)
qed

lemma check_then:
  "check x m v failed =
     then_do (check_installed x (get_module_name m) v)
       (\<lambda>found. ret (if \<not> found then failed @ [get_module_name m] else failed))"
  by (rule ext) (auto simp: check_def then_do_def ret_def Let_def split: prod.splits sum.splits)

lemma yields_check: "yields (check x m v failed) late"
  unfolding check_then
  by (rule late_then_late [OF yields_check_installed]) (simp add: yields_ret late_def)

lemma check_core_Cons:
  "check_core x ((k, s) # items) v failed =
     (if located s
      then then_do (check x k v failed) (\<lambda>failed1. check_core x items v failed1)
      else check_core x items v failed)"
  by (rule ext) (auto simp: then_do_def located_def split: prod.splits sum.splits)

lemma yields_check_core: "yields (check_core x items v failed) late"
proof (induction items arbitrary: failed)
  case Nil
  have "check_core x [] v failed = ret failed" by (rule ext) (simp add: ret_def)
  then show ?case by (simp add: yields_ret late_def)
next
  case (Cons item items)
  obtain k s where item: "item = (k, s)" by (cases item)
  have "yields (then_do (check x k v failed) (\<lambda>failed1. check_core x items v failed1)) late"
    using yields_check Cons by (rule late_then_late)
  with Cons item show ?case by (simp add: check_core_Cons)
qed

lemma check_additional_Cons:
  "check_additional x (m # ms) v failed =
     then_do (check x m v failed) (\<lambda>failed1. check_additional x ms v failed1)"
  by (rule ext) (auto simp: then_do_def split: prod.splits sum.splits)

lemma yields_check_additional: "yields (check_additional x ms v failed) late"
proof (induction ms arbitrary: failed)
  case Nil
  have "check_additional x [] v failed = ret failed" by (rule ext) (simp add: ret_def)
  then show ?case by (simp add: yields_ret late_def)
next
  case (Cons m ms)
  have "yields (then_do (check x m v failed) (\<lambda>failed1. check_additional x ms v failed1)) late"
    using yields_check Cons by (rule late_then_late)
  then show ?case by (simp add: check_additional_Cons)
qed

lemma yields_collect_failed: "yields (collect_failed x mods v) late"
  unfolding collect_failed_def
  by (intro late_then_late yields_check_core yields_check_additional)
    (simp add: yields_check yields_ret late_def)

lemma yields_validate: "yields (validate x mods v) late"
  unfolding validate_def
  by (intro late_then_late yields_collect_failed)
    (simp add: yields_ret yields_fail late_def)

lemma yields_finish: "yields (finish x mods v t keep nv) late"
  unfolding finish_def
  by (intro late_then_late yields_tar yields_get_installed)
    (simp_all add: yields_validate yields_remove_virtualenv yields_ret late_def)

lemma yields_install_modules:
  "yields (install_modules x mods v) (staged (planned_installs mods))"
proof -
  have a: "yields (then_do (install_agent x mods v)
                  (\<lambda>_. uninstall_excluded x (core mods) MODULES_LIST v))
          (staged (agent_source mods))"
    by (rule early_then_late [OF yields_install_agent yields_uninstall_excluded])
  have b: "yields (then_do (install_each x (additional mods) v)
                  (\<lambda>_. then_do (install_agent x mods v)
                  (\<lambda>_. uninstall_excluded x (core mods) MODULES_LIST v)))
          (staged (additional mods @ agent_source mods))"
    by (rule early_then_staged) (rule yields_install_each, rule a)
  have c: "yields (then_do (install_core_modules x (core mods) MODULES_LIST v)
                  (\<lambda>_. then_do (install_each x (additional mods) v)
                  (\<lambda>_. then_do (install_agent x mods v)
                  (\<lambda>_. uninstall_excluded x (core mods) MODULES_LIST v))))
          (staged (core_sources (core mods) MODULES_LIST @ additional mods @ agent_source mods))"
    by (rule early_then_staged) (rule yields_install_core_modules, rule b)
  have "yields (install_modules x mods v)
          (staged (EXTERNAL_MODULES @ core_sources (core mods) MODULES_LIST @ additional mods
                   @ agent_source mods))"
    unfolding install_modules_def
    by (rule early_then_staged) (rule yields_install_each, rule c)
  then show ?thesis by (simp add: planned_installs_def)
qed

lemma create_staged:
  assumes "merge_modules initial_modules config = Inr mods"
  shows "\<exists>T. trace (snd (create x config force dry nv st)) = trace st @ T
           \<and> staged (planned_installs mods) T (fst (create x config force dry nv st))"
proof (cases "platform_dist x (world st)")
  case None
  then show ?thesis by (simp add: create_def staged_def setup_only_def)
next
  case (Some d)
  obtain d0 d2 where d: "d = (d0, d2)" by (cases d)
  let ?venv = "venv_of config d0 d2"
  let ?tar = "destination_tar_of config d0 d2"
  let ?body = "then_do (ensure_virtualenv x ?venv (python_of config) force)
                (\<lambda>_. then_do (ensure_output_free x ?tar force)
                (\<lambda>_. if dry then fail (Exit 0)
                      else then_do (install_modules x mods ?venv)
                             (\<lambda>_. finish x mods ?venv ?tar (keep_venv_of config) nv)))"
  have a: "yields (then_do (install_modules x mods ?venv)
                  (\<lambda>_. finish x mods ?venv ?tar (keep_venv_of config) nv))
          (staged (planned_installs mods))"
    by (rule staged_then_late) (rule yields_install_modules, rule yields_finish)
  have b: "yields (fail (Exit 0) :: ('a, unit) action) (staged (planned_installs mods))"
    by (simp add: yields_fail staged_def setup_only_def)
  from a b have c: "yields (if dry then fail (Exit 0)
                      else then_do (install_modules x mods ?venv)
                             (\<lambda>_. finish x mods ?venv ?tar (keep_venv_of config) nv))
          (staged (planned_installs mods))"
    by simp
  have d': "yields (then_do (ensure_output_free x ?tar force)
                (\<lambda>_. if dry then fail (Exit 0)
                      else then_do (install_modules x mods ?venv)
                             (\<lambda>_. finish x mods ?venv ?tar (keep_venv_of config) nv)))
          (staged ([] @ planned_installs mods))"
    by (rule early_then_staged) (rule yields_ensure_output_free, rule c)
  have "yields ?body (staged ([] @ [] @ planned_installs mods))"
    by (rule early_then_staged) (rule yields_ensure_virtualenv, rule d')
  then have "yields ?body (staged (planned_installs mods))" by simp
  moreover have "create x config force dry nv st = ?body st"
    using Some d assms by (simp add: create_def Let_def)
  ultimately show ?thesis using yieldsD [of ?body _ st] by simp
qed

section \<open>The run as a whole\<close>

lemma dict_get_set_eq:
  assumes "distinct (dict_keys d1)" "distinct (dict_keys d2)" "set d1 = set d2"
  shows "dict_get d1 k = dict_get d2 k"
proof (cases "k \<in> fst ` set d1")
  case True
  then obtain v where "(k, v) \<in> set d1" by auto
  with assms show ?thesis by (simp add: dict_get_distinct dict_keys_def)
next
  case False
  with assms(3) show ?thesis by (simp add: dict_get_absent)
qed

lemma merge_modules_Inr:
  assumes "merge_modules mods0 config = Inr mods"
  shows "cfg_cloudify_agent_module config \<noteq> None \<or> cfg_cloudify_agent_version config \<noteq> None"
  using assms by (auto simp: merge_modules_def Let_def split: option.splits)

lemma create_steps:
  assumes "platform_dist x (world st) = Some (d0, d2)"
  shows "create x config force dry nv st =
     then_do (ensure_virtualenv x (venv_of config d0 d2) (python_of config) force)
       (\<lambda>_. then_do (ensure_output_free x (destination_tar_of config d0 d2) force)
       (\<lambda>_. case merge_modules initial_modules config of
               Inl e \<Rightarrow> fail e
             | Inr mods \<Rightarrow>
                 if dry then fail (Exit 0)
                 else then_do (install_modules x mods (venv_of config d0 d2))
                        (\<lambda>_. finish x mods (venv_of config d0 d2)
                               (destination_tar_of config d0 d2) (keep_venv_of config) nv)))
       st"
  using assms by (simp add: create_def Let_def)

text \<open>
  Claim C5: the modules that a run hands to \<open>install_module\<close> are, in this order, an
  initial part of: the external modules, the sources of the catalog slots that hold a
  location in the order of the catalog, the additional modules in the order of the
  configuration, the agent; and all of them when the run completes. The order of the
  entries of \<open>core_modules\<close> does not matter: a configuration that lists the same entries
  in another order plans the same sequence.
\<close>

theorem create_install_order:
  assumes "merge_modules initial_modules config = Inr mods"
    and "create x config force dry nv st = (r, st')"
  shows "(\<exists>T. trace st' = trace st @ T
            \<and> prefix (installs T) (planned_installs mods)
            \<and> (r = Inr () \<longrightarrow> installs T = planned_installs mods))
         \<and> planned_installs mods =
             EXTERNAL_MODULES @ core_sources (core mods) MODULES_LIST
             @ additional_modules_of config @ agent_source mods
         \<and> (distinct (dict_keys (core_modules_of config)) \<longrightarrow> distinct (dict_keys d')
              \<longrightarrow> set d' = set (core_modules_of config)
              \<longrightarrow> (\<exists>mods'. merge_modules initial_modules (config\<lparr>cfg_core_modules := Some d'\<rparr>)
                             = Inr mods'
                           \<and> planned_installs mods' = planned_installs mods))"
proof (intro conjI impI)
  from create_staged [OF assms(1), of x force dry nv st] assms(2)
  obtain T where T: "trace st' = trace st @ T" and s: "staged (planned_installs mods) T r"
    by auto
  from s obtain T1 T2 where "T = T1 @ T2" "installs T2 = []"
    "prefix (installs T1) (planned_installs mods)"
    "T2 \<noteq> [] \<or> \<not> isl r \<longrightarrow> installs T1 = planned_installs mods"
    unfolding staged_def by blast
  then have "prefix (installs T) (planned_installs mods)
      \<and> (r = Inr () \<longrightarrow> installs T = planned_installs mods)"
    by (auto simp: installs_append)
  with T show "\<exists>T. trace st' = trace st @ T
            \<and> prefix (installs T) (planned_installs mods)
            \<and> (r = Inr () \<longrightarrow> installs T = planned_installs mods)"
    by blast
next
  note ag = merge_modules_Inr [OF assms(1)]
  from merge_modules_ok [OF ag, of initial_modules] assms(1)
  have "additional mods = additional_modules_of config"
    by (auto simp: initial_modules_def)
  then show "planned_installs mods =
             EXTERNAL_MODULES @ core_sources (core mods) MODULES_LIST
             @ additional_modules_of config @ agent_source mods"
    by (simp add: planned_installs_def)
next
  assume d1: "distinct (dict_keys (core_modules_of config))"
    and d2: "distinct (dict_keys d')"
    and eq: "set d' = set (core_modules_of config)"
  let ?config' = "config\<lparr>cfg_core_modules := Some d'\<rparr>"
  note ag = merge_modules_Inr [OF assms(1)]
  then have ag': "cfg_cloudify_agent_module ?config' \<noteq> None
      \<or> cfg_cloudify_agent_version ?config' \<noteq> None"
    by simp
  have u1: "dict_update [] (core_modules_of config) = core_modules_of config"
    using dict_update_distinct [of "[]" "core_modules_of config"] d1
    by (simp add: dict_keys_def)
  have u2: "dict_update [] d' = d'"
    using dict_update_distinct [of "[]" d'] d2 by (simp add: dict_keys_def)
  from merge_modules_ok [OF ag, of initial_modules] assms(1) u1
  have m: "mods = \<lparr>core = core_modules_of config,
                additional = additional_modules_of config,
                agent = Some (case cfg_cloudify_agent_module config of
                                Some v \<Rightarrow> v
                              | None \<Rightarrow> PyStr (DEFAULT_CLOUDIFY_AGENT_URL
                                           (the (cfg_cloudify_agent_version config))))\<rparr>"
    by (simp add: initial_modules_def)
  from merge_modules_ok [OF ag', of initial_modules] u2
  have m': "merge_modules initial_modules ?config' =
           Inr \<lparr>core = d',
                additional = additional_modules_of config,
                agent = Some (case cfg_cloudify_agent_module config of
                                Some v \<Rightarrow> v
                              | None \<Rightarrow> PyStr (DEFAULT_CLOUDIFY_AGENT_URL
                                           (the (cfg_cloudify_agent_version config))))\<rparr>"
    by (simp add: initial_modules_def core_modules_of_def additional_modules_of_def
        split: option.splits)
  have "core_sources d' MODULES_LIST = core_sources (core_modules_of config) MODULES_LIST"
    unfolding core_sources_def using dict_get_set_eq [OF d2 d1 eq] by simp
  with m m' show "\<exists>mods'. merge_modules initial_modules ?config' = Inr mods'
                           \<and> planned_installs mods' = planned_installs mods"
    by (simp add: planned_installs_def agent_source_def)
qed

theorem create_install_order_witness:
  "fst (create (demo_ext []) demo_config False False False
          (demo_state False False demo_listing)) = Inr ()
   \<and> installs (trace (snd (create (demo_ext []) demo_config False False False
          (demo_state False False demo_listing))))
     = [''celery==3.0.24'', ''rest-src'', ''script-src'', ''pyyaml'',
        ''https://github.com/nir0s/cloudify-agent/archive/1.0.tar.gz'']
   \<and> (\<exists>mods'. merge_modules initial_modules
          (demo_config\<lparr>cfg_core_modules :=
             Some [(''cloudify_diamond_plugin'', PyStr ''exclude''),
                   (''cloudify_rest_client'', PyStr ''rest-src''),
                   (''cloudify_script_plugin'', PyStr ''script-src'')]\<rparr>) = Inr mods'
        \<and> planned_installs mods'
          = [''celery==3.0.24'', ''rest-src'', ''script-src'', ''pyyaml'',
             ''https://github.com/nir0s/cloudify-agent/archive/1.0.tar.gz''])"
proof -
  let ?x = "demo_ext []"
  let ?st = "demo_state False False demo_listing"
  let ?mods = "\<lparr>core = [(''cloudify_script_plugin'', PyStr ''script-src''),
                          (''cloudify_rest_client'', PyStr ''rest-src''),
                          (''cloudify_diamond_plugin'', PyStr ''exclude'')],
                 additional = [''pyyaml''],
                 agent = Some (PyStr
                   ''https://github.com/nir0s/cloudify-agent/archive/1.0.tar.gz'')\<rparr>"
  let ?d' = "[(''cloudify_diamond_plugin'', PyStr ''exclude''),
              (''cloudify_rest_client'', PyStr ''rest-src''),
              (''cloudify_script_plugin'', PyStr ''script-src'')]"
  have m: "merge_modules initial_modules demo_config = Inr ?mods"
    by (simp add: packager_defs demo_config_def)
  have c: "create ?x demo_config False False False ?st
      = (fst (create ?x demo_config False False False ?st),
         snd (create ?x demo_config False False False ?st))"
    by simp
  have r: "fst (create ?x demo_config False False False ?st) = Inr ()"
    by code_simp
  have t0: "trace ?st = []" by (simp add: demo_state_def)
  have p: "planned_installs ?mods = [''celery==3.0.24'', ''rest-src'', ''script-src'', ''pyyaml'',
        ''https://github.com/nir0s/cloudify-agent/archive/1.0.tar.gz'']"
    by (simp add: planned_installs_def core_sources_def agent_source_def located_def
        EXTERNAL_MODULES_def MODULES_LIST_def)
  note main = create_install_order [OF m c]
  from main [THEN conjunct1] r t0
  have i: "installs (trace (snd (create ?x demo_config False False False ?st)))
      = planned_installs ?mods"
    by auto
  have cm: "core_modules_of demo_config = core ?mods"
    by (simp add: core_modules_of_def demo_config_def)
  have d1: "distinct (dict_keys (core_modules_of demo_config))"
    by (simp add: cm dict_keys_def)
  have d2: "distinct (dict_keys ?d')" by (simp add: dict_keys_def)
  have eq: "set ?d' = set (core_modules_of demo_config)" by (auto simp: cm)
  from main [THEN conjunct2, THEN conjunct2, rule_format, OF d1 d2 eq]
  have "\<exists>mods'. merge_modules initial_modules (demo_config\<lparr>cfg_core_modules := Some ?d'\<rparr>)
      = Inr mods' \<and> planned_installs mods' = planned_installs ?mods" .
  with r i p show ?thesis by simp
qed

text \<open>
  Claim C6: for a configuration with neither \<open>cloudify_agent_module\<close> nor
  \<open>cloudify_agent_version\<close>, merging the modules exits with status 3; the run ends early
  without a single call of \<open>install_module\<close>, and with status 3 whenever the virtualenv
  and the output file were prepared without error.
\<close>

theorem no_agent_no_install:
  assumes "cfg_cloudify_agent_module config = None"
    and "cfg_cloudify_agent_version config = None"
  shows "merge_modules mods config = Inl (Exit 3)
         \<and> (\<exists>e T. fst (create x config force dry nv st) = Inl e
               \<and> trace (snd (create x config force dry nv st)) = trace st @ T
               \<and> installs T = [])
         \<and> (platform_dist x (world st) = Some (d0, d2)
              \<longrightarrow> ensure_virtualenv x (venv_of config d0 d2) (python_of config) force st
                    = (Inr (), st1)
              \<longrightarrow> ensure_output_free x (destination_tar_of config d0 d2) force st1
                    = (Inr (), st2)
              \<longrightarrow> create x config force dry nv st = (Inl (Exit 3), st2))"
proof (intro conjI impI)
  from assms show m: "merge_modules mods config = Inl (Exit 3)"
    by (simp add: merge_modules_def Let_def)
next
  have m: "merge_modules initial_modules config = Inl (Exit 3)"
    using assms by (simp add: merge_modules_def Let_def)
  let ?Q = "\<lambda>T (r :: abort + unit). installs T = [] \<and> isl r"
  show "\<exists>e T. fst (create x config force dry nv st) = Inl e
               \<and> trace (snd (create x config force dry nv st)) = trace st @ T
               \<and> installs T = []"
  proof (cases "platform_dist x (world st)")
    case None
    then show ?thesis by (simp add: create_def)
  next
    case (Some d)
    obtain d0 d2 where d: "d = (d0, d2)" by (cases d)
    let ?body = "then_do (ensure_virtualenv x (venv_of config d0 d2) (python_of config) force)
       (\<lambda>_. then_do (ensure_output_free x (destination_tar_of config d0 d2) force)
       (\<lambda>_. fail (Exit 3)))"
    have a: "yields (then_do (ensure_output_free x (destination_tar_of config d0 d2) force)
       (\<lambda>_. fail (Exit 3) :: ('a, unit) action)) ?Q"
      by (rule yields_then_do [OF yields_ensure_output_free, where Qg = "\<lambda>_. ?Q"])
        (auto simp: yields_fail early_def setup_only_def installs_append)
    have "yields ?body ?Q"
      by (rule yields_then_do [OF yields_ensure_virtualenv, where Qg = "\<lambda>_. ?Q"])
        (auto simp: a early_def setup_only_def installs_append)
    from yieldsD [OF this, of st] create_steps [of x st d0 d2 config force dry nv] Some d m
    show ?thesis by (auto simp: isl_def)
  qed
next
  assume "platform_dist x (world st) = Some (d0, d2)"
    and "ensure_virtualenv x (venv_of config d0 d2) (python_of config) force st = (Inr (), st1)"
    and "ensure_output_free x (destination_tar_of config d0 d2) force st1 = (Inr (), st2)"
  moreover have "merge_modules initial_modules config = Inl (Exit 3)"
    using assms by (simp add: merge_modules_def Let_def)
  ultimately show "create x config force dry nv st = (Inl (Exit 3), st2)"
    by (simp add: create_steps then_do_def fail_def)
qed

theorem no_agent_no_install_witness:
  "merge_modules initial_modules empty_config = Inl (Exit 3)
   \<and> fst (create (demo_ext []) empty_config False False False (demo_state False False []))
       = Inl (Exit 3)
   \<and> installs (trace (snd (create (demo_ext []) empty_config False False False
        (demo_state False False [])))) = []"
proof -
  let ?x = "demo_ext []"
  let ?v = "venv_of empty_config ''Ubuntu'' ''trusty''"
  let ?t = "destination_tar_of empty_config ''Ubuntu'' ''trusty''"
  let ?c0 = "demo_state False False []"
  let ?c1 = "snd (ensure_virtualenv ?x ?v (python_of empty_config) False ?c0)"
  let ?c2 = "snd (ensure_output_free ?x ?t False ?c1)"
  have a: "cfg_cloudify_agent_module empty_config = None"
    and b: "cfg_cloudify_agent_version empty_config = None"
    by (simp_all add: empty_config_def)
  note main = no_agent_no_install [OF a b]
  from main have 1: "merge_modules initial_modules empty_config = Inl (Exit 3)"
    by (rule conjunct1)
  have t0: "trace ?c0 = []" by (simp add: demo_state_def)
  from main [THEN conjunct2, THEN conjunct1, of ?x False False False ?c0] t0
  have 2: "installs (trace (snd (create ?x empty_config False False False ?c0))) = []"
    by auto
  have p: "platform_dist ?x (world ?c0) = Some (''Ubuntu'', ''trusty'')"
    by (simp add: demo_defs)
  have "fst (ensure_virtualenv ?x ?v (python_of empty_config) False ?c0) = Inr ()"
    by code_simp
  then have c1: "ensure_virtualenv ?x ?v (python_of empty_config) False ?c0 = (Inr (), ?c1)"
    by (simp add: prod_eq_iff)
  have "fst (ensure_output_free ?x ?t False ?c1) = Inr ()" by code_simp
  then have c2: "ensure_output_free ?x ?t False ?c1 = (Inr (), ?c2)"
    by (simp add: prod_eq_iff)
  from main [THEN conjunct2, THEN conjunct2, rule_format, OF p c1 c2, of False False]
  have 3: "fst (create ?x empty_config False False False ?c0) = Inl (Exit 3)" by simp
  from 1 2 3 show ?thesis by simp
qed

text \<open>
  Claim C7: a virtualenv directory that exists without the force flag ends the run with
  exit status 2, an archive path that exists when it is tested with status 9, a
  configuration without agent reference with status 3, and a validation that finds
  missing modules with status 10; the four are pairwise different.
\<close>

theorem fatal_exits_distinct:
  "(platform_dist x (world st) = Some (d0, d2)
      \<longrightarrow> os_path_isdir x (venv_of config d0 d2) (world st) \<longrightarrow> \<not> force
      \<longrightarrow> create x config force dry nv st = (Inl (Exit 2), st))
   \<and> (platform_dist x (world st) = Some (d0, d2)
      \<longrightarrow> ensure_virtualenv x (venv_of config d0 d2) (python_of config) force st = (Inr (), st1)
      \<longrightarrow> \<not> (os_path_isfile x (destination_tar_of config d0 d2) (world st1) \<and> force)
      \<longrightarrow> os_path_exists x (destination_tar_of config d0 d2) (world st1)
      \<longrightarrow> create x config force dry nv st = (Inl (Exit 9), st1))
   \<and> (platform_dist x (world st) = Some (d0, d2)
      \<longrightarrow> ensure_virtualenv x (venv_of config d0 d2) (python_of config) force st = (Inr (), st1)
      \<longrightarrow> ensure_output_free x (destination_tar_of config d0 d2) force st1 = (Inr (), st2)
      \<longrightarrow> cfg_cloudify_agent_module config = None
      \<longrightarrow> cfg_cloudify_agent_version config = None
      \<longrightarrow> create x config force dry nv st = (Inl (Exit 3), st2))
   \<and> (platform_dist x (world st) = Some (d0, d2)
      \<longrightarrow> ensure_virtualenv x (venv_of config d0 d2) (python_of config) force st = (Inr (), st1)
      \<longrightarrow> ensure_output_free x (destination_tar_of config d0 d2) force st1 = (Inr (), st2)
      \<longrightarrow> merge_modules initial_modules config = Inr mods \<longrightarrow> \<not> dry
      \<longrightarrow> install_modules x mods (venv_of config d0 d2) st2 = (Inr (), st3)
      \<longrightarrow> \<not> nv
      \<longrightarrow> collect_failed x mods (venv_of config d0 d2) st3 = (Inr failed, st4)
      \<longrightarrow> failed \<noteq> []
      \<longrightarrow> create x config force dry nv st = (Inl (Exit 10), st4))
   \<and> distinct [Exit 2, Exit 9, Exit 3, Exit 10]"
proof (intro conjI impI)
  assume "platform_dist x (world st) = Some (d0, d2)"
    "os_path_isdir x (venv_of config d0 d2) (world st)" "\<not> force"
  then show "create x config force dry nv st = (Inl (Exit 2), st)"
    by (simp add: create_steps then_do_def ensure_virtualenv_def)
next
  assume "platform_dist x (world st) = Some (d0, d2)"
    "ensure_virtualenv x (venv_of config d0 d2) (python_of config) force st = (Inr (), st1)"
    "\<not> (os_path_isfile x (destination_tar_of config d0 d2) (world st1) \<and> force)"
    "os_path_exists x (destination_tar_of config d0 d2) (world st1)"
  then show "create x config force dry nv st = (Inl (Exit 9), st1)"
    by (auto simp: create_steps then_do_def ensure_output_free_def)
next
  assume "platform_dist x (world st) = Some (d0, d2)"
    "ensure_virtualenv x (venv_of config d0 d2) (python_of config) force st = (Inr (), st1)"
    "ensure_output_free x (destination_tar_of config d0 d2) force st1 = (Inr (), st2)"
    "cfg_cloudify_agent_module config = None" "cfg_cloudify_agent_version config = None"
  then show "create x config force dry nv st = (Inl (Exit 3), st2)"
    by (simp add: create_steps then_do_def fail_def merge_modules_def Let_def)
next
  assume "platform_dist x (world st) = Some (d0, d2)"
    "ensure_virtualenv x (venv_of config d0 d2) (python_of config) force st = (Inr (), st1)"
    "ensure_output_free x (destination_tar_of config d0 d2) force st1 = (Inr (), st2)"
    "merge_modules initial_modules config = Inr mods" "\<not> dry"
    "install_modules x mods (venv_of config d0 d2) st2 = (Inr (), st3)"
    "\<not> nv"
    "collect_failed x mods (venv_of config d0 d2) st3 = (Inr failed, st4)"
    "failed \<noteq> []"
  then show "create x config force dry nv st = (Inl (Exit 10), st4)"
    by (simp add: create_steps then_do_def fail_def finish_def validate_def)
next
  show "distinct [Exit 2, Exit 9, Exit 3, Exit 10]" by simp
qed

theorem fatal_exits_distinct_witness:
  "create (demo_ext []) empty_config False False False (demo_state True False [])
     = (Inl (Exit 2), demo_state True False [])
   \<and> fst (create (demo_ext []) empty_config False False False (demo_state False True []))
       = Inl (Exit 9)
   \<and> fst (create (demo_ext []) empty_config False False False (demo_state False False []))
       = Inl (Exit 3)
   \<and> fst (create (demo_ext []) demo_config False False False (demo_state False False []))
       = Inl (Exit 10)"
proof -
  let ?x = "demo_ext []"
  let ?py = "''/usr/bin/python''"
  let ?v = "venv_of empty_config ''Ubuntu'' ''trusty''"
  let ?t = "destination_tar_of empty_config ''Ubuntu'' ''trusty''"
  let ?v' = "venv_of demo_config ''Ubuntu'' ''trusty''"
  let ?t' = "destination_tar_of demo_config ''Ubuntu'' ''trusty''"
  let ?mods = "\<lparr>core = [(''cloudify_script_plugin'', PyStr ''script-src''),
                          (''cloudify_rest_client'', PyStr ''rest-src''),
                          (''cloudify_diamond_plugin'', PyStr ''exclude'')],
                 additional = [''pyyaml''],
                 agent = Some (PyStr
                   ''https://github.com/nir0s/cloudify-agent/archive/1.0.tar.gz'')\<rparr>"
  have p: "platform_dist ?x (world s) = Some (''Ubuntu'', ''trusty'')" for s
    by (simp add: demo_defs)
  have py: "python_of empty_config = ?py" "python_of demo_config = ?py"
    by (simp_all add: python_of_def empty_config_def demo_config_def)
  \<comment> \<open>the virtualenv exists\<close>
  have d: "os_path_isdir ?x ?v (world (demo_state True False []))"
    by (simp add: demo_defs)
  from fatal_exits_distinct [THEN conjunct1, rule_format, OF p d, of False False False]
  have 1: "create ?x empty_config False False False (demo_state True False [])
      = (Inl (Exit 2), demo_state True False [])"
    by simp
  \<comment> \<open>the archive exists\<close>
  let ?b0 = "demo_state False True []"
  let ?b1 = "snd (ensure_virtualenv ?x ?v (python_of empty_config) False ?b0)"
  have "fst (ensure_virtualenv ?x ?v (python_of empty_config) False ?b0) = Inr ()"
    by code_simp
  then have b1: "ensure_virtualenv ?x ?v (python_of empty_config) False ?b0 = (Inr (), ?b1)"
    by (simp add: prod_eq_iff)
  have b2: "\<not> (os_path_isfile ?x ?t (world ?b1) \<and> False)" by simp
  have b3: "os_path_exists ?x ?t (world ?b1)" by code_simp
  from fatal_exits_distinct [THEN conjunct2, THEN conjunct1, rule_format, OF p b1 b2 b3,
      of False False]
  have 2: "fst (create ?x empty_config False False False ?b0) = Inl (Exit 9)" by simp
  \<comment> \<open>no agent\<close>
  let ?c0 = "demo_state False False []"
  let ?c1 = "snd (ensure_virtualenv ?x ?v (python_of empty_config) False ?c0)"
  let ?c2 = "snd (ensure_output_free ?x ?t False ?c1)"
  have "fst (ensure_virtualenv ?x ?v (python_of empty_config) False ?c0) = Inr ()"
    by code_simp
  then have c1: "ensure_virtualenv ?x ?v (python_of empty_config) False ?c0 = (Inr (), ?c1)"
    by (simp add: prod_eq_iff)
  have "fst (ensure_output_free ?x ?t False ?c1) = Inr ()" by code_simp
  then have c2: "ensure_output_free ?x ?t False ?c1 = (Inr (), ?c2)"
    by (simp add: prod_eq_iff)
  have c3: "cfg_cloudify_agent_module empty_config = None"
    and c4: "cfg_cloudify_agent_version empty_config = None"
    by (simp_all add: empty_config_def)
  from fatal_exits_distinct [THEN conjunct2, THEN conjunct2, THEN conjunct1, rule_format,
      OF p c1 c2 c3 c4, of False False]
  have 3: "fst (create ?x empty_config False False False ?c0) = Inl (Exit 3)" by simp
  \<comment> \<open>validation fails\<close>
  let ?d1 = "snd (ensure_virtualenv ?x ?v' (python_of demo_config) False ?c0)"
  let ?d2 = "snd (ensure_output_free ?x ?t' False ?d1)"
  let ?d3 = "snd (install_modules ?x ?mods ?v' ?d2)"
  let ?d4 = "snd (collect_failed ?x ?mods ?v' ?d3)"
  let ?failed = "[''cloudify-script-plugin'', ''cloudify-rest-client'', ''pyyaml'',
                  ''cloudify-agent'']"
  have "fst (ensure_virtualenv ?x ?v' (python_of demo_config) False ?c0) = Inr ()"
    by code_simp
  then have d1: "ensure_virtualenv ?x ?v' (python_of demo_config) False ?c0 = (Inr (), ?d1)"
    by (simp add: prod_eq_iff)
  have "fst (ensure_output_free ?x ?t' False ?d1) = Inr ()" by code_simp
  then have d2: "ensure_output_free ?x ?t' False ?d1 = (Inr (), ?d2)"
    by (simp add: prod_eq_iff)
  have m: "merge_modules initial_modules demo_config = Inr ?mods"
    by (simp add: packager_defs demo_config_def)
  have "fst (install_modules ?x ?mods ?v' ?d2) = Inr ()" by code_simp
  then have d3: "install_modules ?x ?mods ?v' ?d2 = (Inr (), ?d3)"
    by (simp add: prod_eq_iff)
  have "fst (collect_failed ?x ?mods ?v' ?d3) = Inr ?failed" by code_simp
  then have d4: "collect_failed ?x ?mods ?v' ?d3 = (Inr ?failed, ?d4)"
    by (simp add: prod_eq_iff)
  have nf: "\<not> False" and ne: "?failed \<noteq> []" by simp_all
  from fatal_exits_distinct [THEN conjunct2, THEN conjunct2, THEN conjunct2, THEN conjunct1,
      rule_format, OF p d1 d2 m nf d3 nf d4 ne]
  have 4: "fst (create ?x demo_config False False False ?c0) = Inl (Exit 10)" by simp
  from 1 2 3 4 show ?thesis by simp
qed

section \<open>The exclusion pass\<close>

lemma in_uninstalls:
  "n \<in> set (uninstalls T) \<longleftrightarrow> (\<exists>e \<in> set T. \<exists>v. fst e = UninstallModule n v)"
  by (induction T rule: uninstalls.induct) auto

lemma seen_present_append:
  "seen_present v n (a @ b) = (seen_present v n a \<or> seen_present v n b)"
  by (simp add: seen_present_def)

lemma exclusion_history_Nil: "exclusion_history d v ms []"
  by (simp add: exclusion_history_def seen_present_def)

lemma exclusion_history_others:
  assumes "exclusion_history d v ms T" and "n \<notin> get_module_name ` set ms"
  shows "n \<notin> set (uninstalls T) \<and> \<not> seen_present v n T"
proof -
  from assms(1) have c: "\<forall>e \<in> set T. \<exists>m \<in> set ms.
          fst e = CheckInstalled (get_module_name m) v
        \<or> fst e = UninstallModule (get_module_name m) v"
    by (simp add: exclusion_history_def)
  have "\<not> (fst e = UninstallModule n v' \<or> fst e = CheckInstalled n v)" if "e \<in> set T" for e v'
  proof -
    from c that obtain m where "m \<in> set ms"
      "fst e = CheckInstalled (get_module_name m) v \<or> fst e = UninstallModule (get_module_name m) v"
      by blast
    with assms(2) show ?thesis by auto
  qed
  then show ?thesis
    by (auto simp: in_uninstalls seen_present_def list_ex_iff)
qed

lemma exclusion_history_step:
  assumes rest: "exclusion_history d v ms T"
    and fresh: "get_module_name m \<notin> get_module_name ` set ms"
    and own: "\<forall>e \<in> set P. fst e = CheckInstalled (get_module_name m) v
                         \<or> fst e = UninstallModule (get_module_name m) v"
    and iff: "(get_module_name m \<in> set (uninstalls P)) =
              (dict_get d m = PyStr ''exclude'' \<and> seen_present v (get_module_name m) P)"
  shows "exclusion_history d v (m # ms) (P @ T)"
proof -
  let ?n = "get_module_name m"
  from rest have c: "\<forall>e \<in> set T. \<exists>m' \<in> set ms.
          fst e = CheckInstalled (get_module_name m') v
        \<or> fst e = UninstallModule (get_module_name m') v"
    and i: "\<forall>m' \<in> set ms. (get_module_name m' \<in> set (uninstalls T)) =
            (dict_get d m' = PyStr ''exclude'' \<and> seen_present v (get_module_name m') T)"
    by (simp_all add: exclusion_history_def)
  from exclusion_history_others [OF rest fresh]
  have o: "?n \<notin> set (uninstalls T)" "\<not> seen_present v ?n T" by simp_all
  have first: "\<forall>e \<in> set (P @ T). \<exists>m' \<in> set (m # ms).
          fst e = CheckInstalled (get_module_name m') v
        \<or> fst e = UninstallModule (get_module_name m') v"
    using own c by auto
  have head: "(?n \<in> set (uninstalls (P @ T))) =
            (dict_get d m = PyStr ''exclude'' \<and> seen_present v ?n (P @ T))"
    using o iff by (simp add: uninstalls_append seen_present_append)
  have tail: "(get_module_name m' \<in> set (uninstalls (P @ T))) =
            (dict_get d m' = PyStr ''exclude'' \<and> seen_present v (get_module_name m') (P @ T))"
    if "m' \<in> set ms" for m'
  proof -
    from that fresh have ne: "get_module_name m' \<noteq> ?n" by (metis image_eqI)
    with own have "get_module_name m' \<notin> set (uninstalls P)"
      "\<not> seen_present v (get_module_name m') P"
      by (auto simp: in_uninstalls seen_present_def list_ex_iff)
    with i that show ?thesis by (simp add: uninstalls_append seen_present_append)
  qed
  from first head tail show ?thesis
    unfolding exclusion_history_def by simp
qed

lemma yields_check_installed_event:
  "yields (check_installed x n v)
     (\<lambda>T r. \<exists>cmd p. T = [(CheckInstalled n v, cmd, p)]
        \<and> r = (case re_search n (lower (stdout p)) of
                 None \<Rightarrow> Inl NotModelled | Some found \<Rightarrow> Inr found))"
  by (rule yieldsI) (auto simp: check_installed_def run_def split: prod.splits option.splits)

lemma yields_uninstall_module_event:
  "yields (uninstall_module x n v) (\<lambda>T r. \<exists>cmd p. T = [(UninstallModule n v, cmd, p)])"
  by (rule yieldsI) (auto simp: uninstall_module_def run_def split: prod.splits)

lemma yields_uninstall_excluded_history:
  assumes "distinct (map get_module_name ms)"
  shows "yields (uninstall_excluded x d ms v) (\<lambda>T r. exclusion_history d v ms T)"
  using assms
proof (induction ms)
  case Nil
  have "uninstall_excluded x d [] v = ret ()" by (rule ext) (simp add: ret_def)
  then show ?case by (simp add: yields_ret exclusion_history_Nil)
next
  case (Cons m ms)
  let ?n = "get_module_name m"
  let ?rest = "uninstall_excluded x d ms v"
  from Cons.prems have fresh: "?n \<notin> get_module_name ` set ms" by simp
  from Cons have IH: "yields ?rest (\<lambda>T r. exclusion_history d v ms T)" by simp
  show ?case
  proof (cases "dict_get d m = PyStr ''exclude''")
    case False
    have "exclusion_history d v (m # ms) T" if "exclusion_history d v ms T" for T
      using exclusion_history_step [OF that fresh, where P = "[]"] False by simp
    with IH have "yields ?rest (\<lambda>T r. exclusion_history d v (m # ms) T)"
      by (rule yields_weaken)
    with False show ?thesis by (simp add: uninstall_excluded_Cons)
  next
    case True
    have unin: "yields (then_do (uninstall_module x ?n v) (\<lambda>u. ?rest))
        (\<lambda>T r. \<exists>cmd p T'. T = (UninstallModule ?n v, cmd, p) # T'
              \<and> exclusion_history d v ms T')"
      using yields_uninstall_module_event IH
      by (rule yields_then_do) (auto simp: exclusion_history_Nil)
    have inner: "yields (if found then then_do (uninstall_module x ?n v) (\<lambda>u. ?rest) else ?rest)
        (\<lambda>T r. if found
                then \<exists>cmd p T'. T = (UninstallModule ?n v, cmd, p) # T'
                       \<and> exclusion_history d v ms T'
                else exclusion_history d v ms T)" for found
      using unin IH by simp
    have "yields (then_do (check_installed x ?n v)
             (\<lambda>found. if found then then_do (uninstall_module x ?n v) (\<lambda>u. ?rest) else ?rest))
        (\<lambda>T r. exclusion_history d v (m # ms) T)"
      using yields_check_installed_event inner
    proof (rule yields_then_do)
      fix T :: "event list" and e
      assume "\<exists>cmd p. T = [(CheckInstalled ?n v, cmd, p)]
        \<and> Inl e = (case re_search ?n (lower (stdout p)) of
                 None \<Rightarrow> Inl NotModelled | Some found \<Rightarrow> Inr found)"
      then obtain cmd p where T: "T = [(CheckInstalled ?n v, cmd, p)]"
        and "re_search ?n (lower (stdout p)) = None"
        by (auto split: option.splits)
      then have "(?n \<in> set (uninstalls T)) =
              (dict_get d m = PyStr ''exclude'' \<and> seen_present v ?n T)"
        by (simp add: seen_present_def)
      with exclusion_history_step [OF exclusion_history_Nil fresh, where P = T and d = d] T
      show "exclusion_history d v (m # ms) T" by simp
    next
      fix T T' :: "event list" and found and r :: "abort + unit"
      assume a: "\<exists>cmd p. T = [(CheckInstalled ?n v, cmd, p)]
        \<and> Inr found = (case re_search ?n (lower (stdout p)) of
                 None \<Rightarrow> Inl NotModelled | Some found \<Rightarrow> Inr found)"
        and b: "if found
                then \<exists>cmd p T''. T' = (UninstallModule ?n v, cmd, p) # T''
                       \<and> exclusion_history d v ms T''
                else exclusion_history d v ms T'"
      from a obtain cmd p where T: "T = [(CheckInstalled ?n v, cmd, p)]"
        and rs: "re_search ?n (lower (stdout p)) = Some found"
        by (auto split: option.splits)
      show "exclusion_history d v (m # ms) (T @ T')"
      proof (cases found)
        case True
        with b obtain cmd2 p2 T'' where T': "T' = (UninstallModule ?n v, cmd2, p2) # T''"
          and h: "exclusion_history d v ms T''"
          by auto
        let ?P = "[(CheckInstalled ?n v, cmd, p), (UninstallModule ?n v, cmd2, p2)]"
        have "(?n \<in> set (uninstalls ?P)) =
              (dict_get d m = PyStr ''exclude'' \<and> seen_present v ?n ?P)"
          using rs True \<open>dict_get d m = PyStr ''exclude''\<close> by (simp add: seen_present_def)
        with exclusion_history_step [OF h fresh, where P = ?P]
        have "exclusion_history d v (m # ms) (?P @ T'')" by simp
        with T T' show ?thesis by simp
      next
        case False
        with b have h: "exclusion_history d v ms T'" by simp
        have "(?n \<in> set (uninstalls T)) =
              (dict_get d m = PyStr ''exclude'' \<and> seen_present v ?n T)"
          using rs False T by (simp add: seen_present_def)
        with exclusion_history_step [OF h fresh, where P = T] T show ?thesis by simp
      qed
    qed
    with True show ?thesis by (simp add: uninstall_excluded_Cons)
  qed
qed

lemma then_do_assoc:
  "then_do (then_do f g) h = then_do f (\<lambda>v. then_do (g v) h)"
  by (rule ext) (simp add: then_do_def split: prod.splits sum.splits)

lemma then_do_ret: "then_do (ret v) g = g v"
  by (rule ext) (simp add: then_do_def ret_def)

lemma then_do_if:
  "then_do (if c then a else b) h = (if c then then_do a h else then_do b h)"
  by simp

lemma uninstall_excluded_Nil: "uninstall_excluded x d [] v = ret ()"
  by (rule ext) (simp add: ret_def)

lemma uninstall_excluded_append_then:
  "uninstall_excluded x d (pre @ rest) v =
     then_do (uninstall_excluded x d pre v) (\<lambda>u. uninstall_excluded x d rest v)"
proof (induction pre)
  case Nil
  show ?case by (simp add: uninstall_excluded_Nil then_do_ret)
next
  case (Cons m pre)
  have "uninstall_excluded x d ((m # pre) @ rest) v
      = uninstall_excluded x d (m # (pre @ rest)) v"
    by simp
  also have "\<dots> = then_do (uninstall_excluded x d (m # pre) v)
      (\<lambda>u. uninstall_excluded x d rest v)"
    by (simp only: uninstall_excluded_Cons Cons.IH then_do_assoc then_do_if)
  finally show ?case .
qed

lemma uninstall_excluded_append:
  "uninstall_excluded x d (pre @ rest) v st =
     (case uninstall_excluded x d pre v st of
        (Inl e, s1) \<Rightarrow> (Inl e, s1)
      | (Inr u, s1) \<Rightarrow> uninstall_excluded x d rest v s1)"
  by (simp only: uninstall_excluded_append_then then_do_def)

lemma uninstall_excluded_skip:
  "\<forall>m \<in> set pre. dict_get d m \<noteq> PyStr ''exclude'' \<Longrightarrow>
   uninstall_excluded x d pre v st = (Inr (), st)"
  by (induction pre) (simp_all add: Let_def)

lemma check_installed_shape:
  "\<exists>cmd p s2. check_installed x n v s =
       (case re_search n (lower (listing x v (world s))) of
          None \<Rightarrow> Inl NotModelled | Some found \<Rightarrow> Inr found, s2)
     \<and> trace s2 = trace s @ [(CheckInstalled n v, cmd, p)]"
  by (auto simp: check_installed_def run_def listing_def split: prod.splits option.splits)

lemma uninstall_module_shape:
  "\<exists>r cmd p s2. uninstall_module x n v s = (r, s2)
     \<and> trace s2 = trace s @ [(UninstallModule n v, cmd, p)]"
  by (auto simp: uninstall_module_def run_def split: prod.splits)

lemma uninstall_excluded_quiet:
  assumes "distinct (map get_module_name ms)" and "n \<notin> get_module_name ` set ms"
  shows "\<exists>T. trace (snd (uninstall_excluded x d ms v st)) = trace st @ T
           \<and> n \<notin> set (uninstalls T)"
proof -
  from yieldsD [OF yields_uninstall_excluded_history [OF assms(1)], of x d v st]
  obtain T where T: "trace (snd (uninstall_excluded x d ms v st)) = trace st @ T"
    and h: "exclusion_history d v ms T"
    by auto
  from exclusion_history_others [OF h assms(2)] T show ?thesis
    by - (rule exI [of _ T], simp)
qed

lemma uninstall_excluded_at_slot:
  assumes dist: "distinct (map get_module_name (slot # post))"
    and run: "uninstall_excluded x d (slot # post) v s1 = (r, s')"
  shows "\<exists>T. trace s' = trace s1 @ T
           \<and> (get_module_name slot \<in> set (uninstalls T)) =
               (dict_get d slot = PyStr ''exclude''
                \<and> re_search (get_module_name slot) (lower (listing x v (world s1))) = Some True)"
proof -
  let ?n = "get_module_name slot"
  let ?found = "re_search ?n (lower (listing x v (world s1)))"
  from dist have dpost: "distinct (map get_module_name post)"
    and fresh: "?n \<notin> get_module_name ` set post"
    by simp_all
  have quiet: "\<exists>T. trace t = trace s @ T \<and> ?n \<notin> set (uninstalls T)"
    if "uninstall_excluded x d post v s = (r, t)" for s t
    using uninstall_excluded_quiet [OF dpost fresh, where x = x and d = d and v = v and st = s]
      that
    by simp
  show ?thesis
  proof (cases "dict_get d slot = PyStr ''exclude''")
    case False
    then have "uninstall_excluded x d (slot # post) v s1 = uninstall_excluded x d post v s1"
      by (simp add: Let_def)
    with run have "uninstall_excluded x d post v s1 = (r, s')" by simp
    from quiet [OF this] obtain T where "trace s' = trace s1 @ T" "?n \<notin> set (uninstalls T)"
      by (elim exE conjE)
    with False show ?thesis by - (rule exI [of _ T], simp)
  next
    case True
    obtain rc s2 where c: "check_installed x ?n v s1 = (rc, s2)"
      by (cases "check_installed x ?n v s1")
    from check_installed_shape [of x ?n v s1] c
    obtain cmd p where rc: "rc = (case ?found of None \<Rightarrow> Inl NotModelled | Some f \<Rightarrow> Inr f)"
      and t2: "trace s2 = trace s1 @ [(CheckInstalled ?n v, cmd, p)]"
      by auto
    obtain r2 s3 where u: "uninstall_module x ?n v s2 = (r2, s3)"
      by (cases "uninstall_module x ?n v s2")
    from uninstall_module_shape [of x ?n v s2] u
    obtain cmd2 p2 where t3: "trace s3 = trace s2 @ [(UninstallModule ?n v, cmd2, p2)]"
      by auto
    have step: "uninstall_excluded x d (slot # post) v s1 =
        (case rc of
           Inl e \<Rightarrow> (Inl e, s2)
         | Inr f \<Rightarrow>
             if f then (case r2 of Inl e \<Rightarrow> (Inl e, s3)
                                 | Inr w \<Rightarrow> uninstall_excluded x d post v s3)
             else uninstall_excluded x d post v s2)"
      using True c u by (simp add: Let_def split: sum.splits)
    show ?thesis
    proof (cases rc)
      case (Inl e)
      with rc have nf: "?found \<noteq> Some True" by (auto split: option.splits)
      from Inl step run have "s' = s2" by simp
      with t2 have "trace s' = trace s1 @ [(CheckInstalled ?n v, cmd, p)]
          \<and> ?n \<notin> set (uninstalls [(CheckInstalled ?n v, cmd, p)])"
        by simp
      with nf show ?thesis
        by - (rule exI [of _ "[(CheckInstalled ?n v, cmd, p)]"], simp)
    next
      case (Inr f)
      with rc have fo: "?found = Some f" by (auto split: option.splits)
      show ?thesis
      proof (cases f)
        case False
        with Inr step run have "uninstall_excluded x d post v s2 = (r, s')" by simp
        from quiet [OF this] obtain T where "trace s' = trace s2 @ T"
          "?n \<notin> set (uninstalls T)"
          by (elim exE conjE)
        with t2 have "trace s' = trace s1 @ ((CheckInstalled ?n v, cmd, p) # T)
            \<and> ?n \<notin> set (uninstalls ((CheckInstalled ?n v, cmd, p) # T))"
          by simp
        with fo False show ?thesis
          by - (rule exI [of _ "(CheckInstalled ?n v, cmd, p) # T"], simp)
      next
        case yes: True
        have "\<exists>T. trace s' = trace s3 @ T"
        proof (cases r2)
          case (Inl e)
          with Inr yes step run have "s' = s3" by simp
          then show ?thesis by simp
        next
          case (Inr w)
          with \<open>rc = Inr f\<close> yes step run
          have "uninstall_excluded x d post v s3 = (r, s')" by simp
          from quiet [OF this] obtain T where "trace s' = trace s3 @ T" by (elim exE conjE)
          then show ?thesis by (rule exI)
        qed
        then obtain T where "trace s' = trace s3 @ T" by (elim exE)
        with t2 t3 have "trace s' = trace s1 @
            ((CheckInstalled ?n v, cmd, p) # (UninstallModule ?n v, cmd2, p2) # T)
          \<and> ?n \<in> set (uninstalls
            ((CheckInstalled ?n v, cmd, p) # (UninstallModule ?n v, cmd2, p2) # T))"
          by simp
        with True fo yes show ?thesis
          by - (rule exI [of _ "(CheckInstalled ?n v, cmd, p)
                  # (UninstallModule ?n v, cmd2, p2) # T"], simp)
      qed
    qed
  qed
qed

lemma uninstall_excluded_reaching:
  assumes dist: "distinct (map get_module_name (pre @ slot # post))"
    and pre: "uninstall_excluded x d pre v st = (rp, s1)"
    and run: "uninstall_excluded x d (pre @ slot # post) v st = (r, st')"
  shows "\<exists>T. trace st' = trace st @ T \<and> installs T = []
           \<and> (get_module_name slot \<in> set (uninstalls T)) =
               (rp = Inr () \<and> dict_get d slot = PyStr ''exclude''
                \<and> re_search (get_module_name slot) (lower (listing x v (world s1))) = Some True)"
proof -
  let ?n = "get_module_name slot"
  let ?rhs = "rp = Inr () \<and> dict_get d slot = PyStr ''exclude''
                \<and> re_search ?n (lower (listing x v (world s1))) = Some True"
  from dist have dpre: "distinct (map get_module_name pre)"
    and fresh: "?n \<notin> get_module_name ` set pre"
    and drest: "distinct (map get_module_name (slot # post))"
    by auto
  from uninstall_excluded_quiet [OF dpre fresh, where x = x and d = d and v = v and st = st] pre
  obtain T1 where T1: "trace s1 = trace st @ T1" and q1: "?n \<notin> set (uninstalls T1)"
    by auto
  have late: "installs T = []" if "trace st' = trace st @ T" for T
    using yieldsD [OF yields_uninstall_excluded, of x d "pre @ slot # post" v st] run that
    by (simp add: late_def)
  show ?thesis
  proof (cases rp)
    case (Inl e)
    with pre run have "st' = s1" by (simp add: uninstall_excluded_append)
    with T1 have t: "trace st' = trace st @ T1" by simp
    from Inl q1 have "(?n \<in> set (uninstalls T1)) = ?rhs" by simp
    with t late [OF t] show ?thesis by - (rule exI [of _ T1], simp)
  next
    case (Inr u)
    with pre run have "uninstall_excluded x d (slot # post) v s1 = (r, st')"
      by (simp add: uninstall_excluded_append)
    from uninstall_excluded_at_slot [OF drest this]
    obtain T2 where T2: "trace st' = trace s1 @ T2"
      and q2: "(?n \<in> set (uninstalls T2)) =
               (dict_get d slot = PyStr ''exclude''
                \<and> re_search ?n (lower (listing x v (world s1))) = Some True)"
      by (elim exE conjE)
    from T1 T2 have t: "trace st' = trace st @ (T1 @ T2)" by simp
    from q1 q2 Inr have "(?n \<in> set (uninstalls (T1 @ T2))) = ?rhs"
      by (simp add: uninstalls_append)
    with t late [OF t] show ?thesis by - (rule exI [of _ "T1 @ T2"], simp)
  qed
qed

lemma install_modules_reaches_exclusion:
  assumes "install_each x EXTERNAL_MODULES v st = (Inr (), a1)"
    and "install_core_modules x (core mods) MODULES_LIST v a1 = (Inr (), a2)"
    and "install_each x (additional mods) v a2 = (Inr (), a3)"
    and "install_agent x mods v a3 = (Inr (), a4)"
  shows "install_modules x mods v st = uninstall_excluded x (core mods) MODULES_LIST v a4"
  using assms by (simp add: install_modules_def then_do_def)

lemma exclude_not_source: "''exclude'' \<notin> set (core_sources d ms)"
proof
  assume "''exclude'' \<in> set (core_sources d ms)"
  then obtain slot where "located (dict_get d slot)" "str_of (dict_get d slot) = ''exclude''"
    by (auto simp: core_sources_def)
  then show False by (cases "dict_get d slot") (auto simp: located_def)
qed

text \<open>
  Claim C4: the pass over the catalog only installs, and what it installs is an initial
  part of the sources of the slots that hold a location, so an excluded slot, whose
  source is the word \<open>exclude\<close>, is never handed to \<open>install_module\<close>. In the exclusion
  pass the name of a catalog slot is handed to \<open>uninstall_module\<close> exactly when the pass
  gets as far as the slot (no earlier uninstall failed), the slot is excluded, and the
  listing that \<open>pip freeze\<close> prints in the state the pass has then reached shows the
  name; the pass changes nothing before the first excluded slot, so for that slot this is
  the listing of the state in which the pass begins. Within \<open>create\<close> the pass begins in
  the very state that the installation of the agent leaves, and everything from the first
  membership check or uninstall on comes after all the planned installs, the agent
  included.
\<close>

theorem excluded_slots:
  "(install_core_modules x d MODULES_LIST venv st = (r, st')
      \<longrightarrow> (\<exists>T. trace st' = trace st @ T \<and> setup_only T
                \<and> prefix (installs T) (core_sources d MODULES_LIST)
                \<and> ''exclude'' \<notin> set (installs T)))
   \<and> (MODULES_LIST = before @ slot # after
      \<longrightarrow> uninstall_excluded x d before venv st = (rb, sb)
      \<longrightarrow> uninstall_excluded x d MODULES_LIST venv st = (r, st')
      \<longrightarrow> (\<exists>T. trace st' = trace st @ T \<and> installs T = []
                \<and> (get_module_name slot \<in> set (uninstalls T)) =
                    (rb = Inr () \<and> dict_get d slot = PyStr ''exclude''
                     \<and> re_search (get_module_name slot) (lower (listing x venv (world sb)))
                         = Some True)))
   \<and> ((\<forall>m \<in> set before. dict_get d m \<noteq> PyStr ''exclude'')
      \<longrightarrow> uninstall_excluded x d before venv st = (Inr (), st))
   \<and> (install_each x EXTERNAL_MODULES venv st = (Inr (), a1)
      \<longrightarrow> install_core_modules x (core mods) MODULES_LIST venv a1 = (Inr (), a2)
      \<longrightarrow> install_each x (additional mods) venv a2 = (Inr (), a3)
      \<longrightarrow> install_agent x mods venv a3 = (Inr (), a4)
      \<longrightarrow> install_modules x mods venv st
            = uninstall_excluded x (core mods) MODULES_LIST venv a4)
   \<and> (merge_modules initial_modules config = Inr mods
      \<longrightarrow> create x config force dry nv st = (r, st')
      \<longrightarrow> (\<exists>T1 T2. trace st' = trace st @ T1 @ T2 \<and> setup_only T1 \<and> installs T2 = []
                \<and> (T2 \<noteq> [] \<longrightarrow> installs T1 = planned_installs mods)))"
proof (intro conjI impI)
  assume a: "install_core_modules x d MODULES_LIST venv st = (r, st')"
  from yieldsD [OF yields_install_core_modules, of x d MODULES_LIST venv st] a
  obtain T where T: "trace st' = trace st @ T" and e: "early (core_sources d MODULES_LIST) T r"
    by auto
  from e have s: "setup_only T" and p: "prefix (installs T) (core_sources d MODULES_LIST)"
    by (simp_all add: early_def)
  from p have "set (installs T) \<subseteq> set (core_sources d MODULES_LIST)"
    by (rule set_mono_prefix)
  with exclude_not_source [of d MODULES_LIST] have "''exclude'' \<notin> set (installs T)" by auto
  with T s p show "\<exists>T. trace st' = trace st @ T \<and> setup_only T
                \<and> prefix (installs T) (core_sources d MODULES_LIST)
                \<and> ''exclude'' \<notin> set (installs T)"
    by - (rule exI [of _ T], simp)
next
  assume split: "MODULES_LIST = before @ slot # after"
    and b: "uninstall_excluded x d before venv st = (rb, sb)"
    and a: "uninstall_excluded x d MODULES_LIST venv st = (r, st')"
  have "distinct (map get_module_name MODULES_LIST)"
    by (simp add: MODULES_LIST_def get_module_name_def)
  with split have dist: "distinct (map get_module_name (before @ slot # after))" by simp
  from a split have a': "uninstall_excluded x d (before @ slot # after) venv st = (r, st')"
    by simp
  from uninstall_excluded_reaching [OF dist b a']
  show "\<exists>T. trace st' = trace st @ T \<and> installs T = []
                \<and> (get_module_name slot \<in> set (uninstalls T)) =
                    (rb = Inr () \<and> dict_get d slot = PyStr ''exclude''
                     \<and> re_search (get_module_name slot) (lower (listing x venv (world sb)))
                         = Some True)" .
next
  assume "\<forall>m \<in> set before. dict_get d m \<noteq> PyStr ''exclude''"
  then show "uninstall_excluded x d before venv st = (Inr (), st)"
    by (rule uninstall_excluded_skip)
next
  assume "install_each x EXTERNAL_MODULES venv st = (Inr (), a1)"
    "install_core_modules x (core mods) MODULES_LIST venv a1 = (Inr (), a2)"
    "install_each x (additional mods) venv a2 = (Inr (), a3)"
    "install_agent x mods venv a3 = (Inr (), a4)"
  then show "install_modules x mods venv st
            = uninstall_excluded x (core mods) MODULES_LIST venv a4"
    by (rule install_modules_reaches_exclusion)
next
  assume m: "merge_modules initial_modules config = Inr mods"
    and c: "create x config force dry nv st = (r, st')"
  from create_staged [OF m, of x force dry nv st] c
  obtain T where T: "trace st' = trace st @ T" and s: "staged (planned_installs mods) T r"
    by auto
  from s obtain T1 T2 where "T = T1 @ T2" "setup_only T1" "installs T2 = []"
    "T2 \<noteq> [] \<or> \<not> isl r \<longrightarrow> installs T1 = planned_installs mods"
    unfolding staged_def by (elim exE conjE)
  with T show "\<exists>T1 T2. trace st' = trace st @ T1 @ T2 \<and> setup_only T1 \<and> installs T2 = []
                \<and> (T2 \<noteq> [] \<longrightarrow> installs T1 = planned_installs mods)"
    by - (rule exI [of _ T1], rule exI [of _ T2], simp)
qed

theorem excluded_slots_witness:
  "''exclude'' \<notin> set (installs (trace (snd (install_core_modules demo_pip
        (core demo_plan) MODULES_LIST ''env'' (demo_state False False demo_listing)))))
   \<and> install_modules demo_pip demo_plan ''env'' (demo_state False False demo_listing)
       = uninstall_excluded demo_pip (core demo_plan) MODULES_LIST ''env'' demo_after_agent
   \<and> dict_get (core demo_plan) ''cloudify_diamond_plugin'' = PyStr ''exclude''
   \<and> re_search ''cloudify-diamond-plugin'' (lower (listing demo_pip ''env''
        (world demo_after_agent))) = Some True
   \<and> ''cloudify-diamond-plugin'' \<in> set (uninstalls (trace (snd (uninstall_excluded demo_pip
        (core demo_plan) MODULES_LIST ''env'' demo_after_agent))))
   \<and> re_search ''cloudify-diamond-plugin'' (lower (listing demo_pip ''env''
        (world (demo_state False False ''cloudify-agent'')))) = Some False
   \<and> ''cloudify-diamond-plugin'' \<notin> set (uninstalls (trace (snd (uninstall_excluded demo_pip
        (core demo_plan) MODULES_LIST ''env'' (demo_state False False ''cloudify-agent'')))))
   \<and> uninstalls (trace (snd (create demo_pip demo_config False False False
          (demo_state False False demo_listing)))) = [''cloudify-diamond-plugin'']
   \<and> installs (trace (snd (create demo_pip demo_config False False False
          (demo_state False False demo_listing))))
     = [''celery==3.0.24'', ''rest-src'', ''script-src'', ''pyyaml'',
        ''https://github.com/nir0s/cloudify-agent/archive/1.0.tar.gz'']"
proof -
  let ?x = "demo_pip"
  let ?st = "demo_state False False demo_listing"
  let ?st2 = "demo_state False False ''cloudify-agent''"
  let ?d = "core demo_plan"
  let ?B = "[''cloudify_rest_client'', ''cloudify_plugins_common'', ''cloudify_script_plugin'']"
  let ?n = "''cloudify-diamond-plugin''"
  let ?run = "create ?x demo_config False False False ?st"
  let ?pass = "uninstall_excluded ?x ?d MODULES_LIST ''env'' demo_after_agent"
  let ?pass2 = "uninstall_excluded ?x ?d MODULES_LIST ''env'' ?st2"
  have t0: "trace ?st = []" "trace ?st2 = []" by (simp_all add: demo_state_def)
  have name: "get_module_name ''cloudify_diamond_plugin'' = ?n"
    by (simp add: get_module_name_def)
  \<comment> \<open>the pass over the catalog\<close>
  have a: "install_core_modules ?x ?d MODULES_LIST ''env'' ?st
      = (fst (install_core_modules ?x ?d MODULES_LIST ''env'' ?st),
         snd (install_core_modules ?x ?d MODULES_LIST ''env'' ?st))"
    by simp
  from excluded_slots [THEN conjunct1, rule_format, OF a] t0
  have 1: "''exclude'' \<notin> set (installs (trace (snd (install_core_modules ?x ?d MODULES_LIST
      ''env'' ?st))))"
    by auto
  \<comment> \<open>the exclusion pass begins in the state the agent install leaves\<close>
  let ?a1 = "snd (install_each ?x EXTERNAL_MODULES ''env'' ?st)"
  let ?a2 = "snd (install_core_modules ?x ?d MODULES_LIST ''env'' ?a1)"
  let ?a3 = "snd (install_each ?x (additional demo_plan) ''env'' ?a2)"
  let ?a4 = "snd (install_agent ?x demo_plan ''env'' ?a3)"
  have "fst (install_each ?x EXTERNAL_MODULES ''env'' ?st) = Inr ()" by code_simp
  then have l1: "install_each ?x EXTERNAL_MODULES ''env'' ?st = (Inr (), ?a1)"
    by (simp add: prod_eq_iff)
  have "fst (install_core_modules ?x ?d MODULES_LIST ''env'' ?a1) = Inr ()" by code_simp
  then have l2: "install_core_modules ?x ?d MODULES_LIST ''env'' ?a1 = (Inr (), ?a2)"
    by (simp add: prod_eq_iff)
  have "fst (install_each ?x (additional demo_plan) ''env'' ?a2) = Inr ()" by code_simp
  then have l3: "install_each ?x (additional demo_plan) ''env'' ?a2 = (Inr (), ?a3)"
    by (simp add: prod_eq_iff)
  have "fst (install_agent ?x demo_plan ''env'' ?a3) = Inr ()" by code_simp
  then have l4: "install_agent ?x demo_plan ''env'' ?a3 = (Inr (), ?a4)"
    by (simp add: prod_eq_iff)
  from excluded_slots [THEN conjunct2, THEN conjunct2, THEN conjunct2, THEN conjunct1,
      rule_format, OF l1 l2 l3 l4]
  have 2: "install_modules ?x demo_plan ''env'' ?st = ?pass"
    by (simp only: demo_after_agent_def)
  \<comment> \<open>an excluded slot that the listing shows is uninstalled\<close>
  have split: "MODULES_LIST = ?B @ ''cloudify_diamond_plugin'' # []"
    by (simp add: MODULES_LIST_def)
  have nb: "\<forall>m \<in> set ?B. dict_get ?d m \<noteq> PyStr ''exclude''"
    by (simp add: demo_plan_def)
  have ex: "dict_get ?d ''cloudify_diamond_plugin'' = PyStr ''exclude''"
    by (simp add: demo_plan_def)
  have pr: "re_search ?n (lower (listing ?x ''env'' (world demo_after_agent))) = Some True"
    by code_simp
  from excluded_slots [THEN conjunct2, THEN conjunct2, THEN conjunct1, THEN mp, OF nb]
  have pb: "uninstall_excluded ?x ?d ?B ''env'' s = (Inr (), s)" for s .
  have b: "?pass = (fst ?pass, snd ?pass)" by simp
  from excluded_slots [THEN conjunct2, THEN conjunct1, rule_format, OF split pb b]
  obtain T where "trace (snd ?pass) = trace demo_after_agent @ T"
    and "(get_module_name ''cloudify_diamond_plugin'' \<in> set (uninstalls T)) =
         (Inr () = (Inr () :: abort + unit) \<and> dict_get ?d ''cloudify_diamond_plugin'' = PyStr ''exclude''
          \<and> re_search (get_module_name ''cloudify_diamond_plugin'')
                (lower (listing ?x ''env'' (world demo_after_agent))) = Some True)"
    by (elim exE conjE)
  with ex pr name have 3: "?n \<in> set (uninstalls (trace (snd ?pass)))"
    by (simp add: uninstalls_append)
  \<comment> \<open>an excluded slot that the listing does not show is left alone\<close>
  have ab: "re_search ?n (lower (listing ?x ''env'' (world ?st2))) = Some False"
    by code_simp
  have b2: "?pass2 = (fst ?pass2, snd ?pass2)" by simp
  from excluded_slots [THEN conjunct2, THEN conjunct1, rule_format, OF split pb b2]
  obtain T' where "trace (snd ?pass2) = trace ?st2 @ T'"
    and "(get_module_name ''cloudify_diamond_plugin'' \<in> set (uninstalls T')) =
         (Inr () = (Inr () :: abort + unit) \<and> dict_get ?d ''cloudify_diamond_plugin'' = PyStr ''exclude''
          \<and> re_search (get_module_name ''cloudify_diamond_plugin'')
                (lower (listing ?x ''env'' (world ?st2))) = Some True)"
    by (elim exE conjE)
  with ab name t0 have 4: "?n \<notin> set (uninstalls (trace (snd ?pass2)))"
    by simp
  \<comment> \<open>the whole run\<close>
  have m: "merge_modules initial_modules demo_config = Inr demo_plan"
    by (simp add: packager_defs demo_config_def demo_plan_def)
  have c: "?run = (fst ?run, snd ?run)" by simp
  have u: "uninstalls (trace (snd ?run)) = [?n]" by code_simp
  have p: "planned_installs demo_plan = [''celery==3.0.24'', ''rest-src'', ''script-src'',
        ''pyyaml'', ''https://github.com/nir0s/cloudify-agent/archive/1.0.tar.gz'']"
    by (simp add: planned_installs_def core_sources_def agent_source_def located_def
        EXTERNAL_MODULES_def MODULES_LIST_def demo_plan_def)
  from excluded_slots [THEN conjunct2, THEN conjunct2, THEN conjunct2, THEN conjunct2,
      rule_format, OF m c] t0
  obtain T1 T2 where T: "trace (snd ?run) = T1 @ T2" and s: "setup_only T1"
    and i: "installs T2 = []" and f: "T2 \<noteq> [] \<longrightarrow> installs T1 = planned_installs demo_plan"
    by auto
  from T u s have "T2 \<noteq> []" by (auto simp: uninstalls_append setup_only_uninstalls)
  with f T i have 5: "installs (trace (snd ?run)) = planned_installs demo_plan"
    by (simp add: installs_append)
  from 1 2 ex pr 3 ab 4 u 5 p show ?thesis by simp
qed

section \<open>Core modules outside the catalog\<close>

lemma install_core_modules_cong:
  "\<forall>m \<in> set ms. dict_get d m = dict_get d' m \<Longrightarrow>
   install_core_modules x d ms v st = install_core_modules x d' ms v st"
proof (induction ms arbitrary: st)
  case Nil
  then show ?case by simp
next
  case (Cons m ms)
  then have "dict_get d m = dict_get d' m"
    and "\<And>s. install_core_modules x d ms v s = install_core_modules x d' ms v s"
    by simp_all
  then show ?case by (simp split: prod.splits sum.splits)
qed

lemma dict_get_filter:
  "k' \<noteq> k \<Longrightarrow> dict_get (filter (\<lambda>item. fst item \<noteq> k) d) k' = dict_get d k'"
  by (induction d) auto

text \<open>
  Claim C10: a key of \<open>core_modules\<close> that is no catalog slot is merged into the core
  mapping of the plan like any other. When its source is a location, validation looks for
  its name, while the pass over the catalog runs exactly as it does on the mapping without
  that key; so when the listing does not show the name, validation ends the run with
  status 10.
\<close>

theorem non_catalog_key:
  assumes "cfg_cloudify_agent_module config \<noteq> None \<or> cfg_cloudify_agent_version config \<noteq> None"
    and "distinct (dict_keys (core_modules_of config))"
    and "(k, PyStr s) \<in> set (core_modules_of config)"
    and "s \<noteq> []" and "s \<noteq> ''exclude''"
    and "k \<notin> set MODULES_LIST"
  shows "\<exists>mods. merge_modules initial_modules config = Inr mods
           \<and> dict_get (core mods) k = PyStr s
           \<and> get_module_name k \<in> set (names_to_check mods)
           \<and> install_core_modules x (core mods) MODULES_LIST venv st
               = install_core_modules x (filter (\<lambda>item. fst item \<noteq> k) (core mods))
                   MODULES_LIST venv st
           \<and> (freeze_readonly x venv
                \<longrightarrow> (\<forall>n \<in> set (names_to_check mods). in_fragment n)
                \<longrightarrow> re_search (get_module_name k) (lower (listing x venv (world st2)))
                      = Some False
                \<longrightarrow> fst (validate x mods venv st2) = Inl (Exit 10))"
proof -
  let ?cm = "core_modules_of config"
  have u: "dict_update [] ?cm = ?cm"
    using dict_update_distinct [of "[]" ?cm] assms(2) by (simp add: dict_keys_def)
  from merge_modules_ok [OF assms(1), of initial_modules] u
  obtain mods where m: "merge_modules initial_modules config = Inr mods"
    and c: "core mods = ?cm" and a: "agent mods \<noteq> None"
    by (simp add: initial_modules_def)
  from assms(2,3) c have g: "dict_get (core mods) k = PyStr s"
    by (simp add: dict_get_distinct dict_keys_def)
  from assms(3,4,5) c have "k \<in> set (map fst (filter (\<lambda>item. located (snd item)) (core mods)))"
    by (force simp: located_def)
  then have n: "get_module_name k \<in> set (names_to_check mods)"
    by (auto simp: names_to_check_def)
  have "m \<noteq> k" if "m \<in> set MODULES_LIST" for m
    using that assms(6) by blast
  then have "\<forall>m \<in> set MODULES_LIST.
      dict_get (core mods) m = dict_get (filter (\<lambda>item. fst item \<noteq> k) (core mods)) m"
    by (simp add: dict_get_filter)
  then have i: "install_core_modules x (core mods) MODULES_LIST venv st
               = install_core_modules x (filter (\<lambda>item. fst item \<noteq> k) (core mods))
                   MODULES_LIST venv st"
    by (rule install_core_modules_cong)
  have v: "fst (validate x mods venv st2) = Inl (Exit 10)"
    if ro: "freeze_readonly x venv"
      and fr: "\<forall>n \<in> set (names_to_check mods). in_fragment n"
      and ab: "re_search (get_module_name k) (lower (listing x venv (world st2))) = Some False"
  proof -
    from n ab have "get_module_name k
        \<in> set (missing (listing x venv (world st2)) (names_to_check mods))"
      by (simp add: missing_def)
    then have "missing (listing x venv (world st2)) (names_to_check mods) \<noteq> []" by auto
    then show ?thesis by (simp add: validate_exact [OF ro a fr])
  qed
  from m g n i v show ?thesis by blast
qed

theorem non_catalog_key_witness:
  "merge_modules initial_modules
     (empty_config\<lparr>cfg_cloudify_agent_version := Some ''1.0'',
                   cfg_core_modules := Some [(''my_plugin'', PyStr ''my-plugin-src'')]\<rparr>)
   = Inr \<lparr>core = [(''my_plugin'', PyStr ''my-plugin-src'')], additional = [],
          agent = Some (PyStr ''https://github.com/nir0s/cloudify-agent/archive/1.0.tar.gz'')\<rparr>
   \<and> installs (trace (snd (install_core_modules (demo_ext [])
        [(''my_plugin'', PyStr ''my-plugin-src'')] MODULES_LIST ''env''
        (demo_state False False ''cloudify-agent'')))) = []
   \<and> fst (validate (demo_ext [])
        \<lparr>core = [(''my_plugin'', PyStr ''my-plugin-src'')], additional = [],
          agent = Some (PyStr ''https://github.com/nir0s/cloudify-agent/archive/1.0.tar.gz'')\<rparr>
        ''env'' (demo_state False False ''cloudify-agent'')) = Inl (Exit 10)"
proof -
  let ?config = "empty_config\<lparr>cfg_cloudify_agent_version := Some ''1.0'',
                   cfg_core_modules := Some [(''my_plugin'', PyStr ''my-plugin-src'')]\<rparr>"
  let ?mods = "\<lparr>core = [(''my_plugin'', PyStr ''my-plugin-src'')], additional = [],
          agent = Some (PyStr ''https://github.com/nir0s/cloudify-agent/archive/1.0.tar.gz'')\<rparr>"
  let ?x = "demo_ext []"
  let ?st = "demo_state False False ''cloudify-agent''"
  have cm: "core_modules_of ?config = [(''my_plugin'', PyStr ''my-plugin-src'')]"
    by (simp add: core_modules_of_def)
  have 1: "cfg_cloudify_agent_module ?config \<noteq> None \<or> cfg_cloudify_agent_version ?config \<noteq> None"
    by simp
  have 2: "distinct (dict_keys (core_modules_of ?config))"
    by (simp add: cm dict_keys_def)
  have 3: "(''my_plugin'', PyStr ''my-plugin-src'') \<in> set (core_modules_of ?config)"
    by (simp add: cm)
  have 4: "''my-plugin-src'' \<noteq> []" and 5: "''my-plugin-src'' \<noteq> ''exclude''" by simp_all
  have 6: "''my_plugin'' \<notin> set MODULES_LIST" by (simp add: MODULES_LIST_def)
  have m: "merge_modules initial_modules ?config = Inr ?mods"
    by (simp add: packager_defs empty_config_def)
  have ro: "freeze_readonly ?x ''env''" by (simp add: demo_defs)
  have names: "names_to_check ?mods = [''my-plugin'', ''cloudify-agent'']"
    by (simp add: names_to_check_def located_def get_module_name_def)
  have fr: "\<forall>n \<in> set (names_to_check ?mods). in_fragment n"
    unfolding names by (simp add: in_fragment_def re_special_def)
  have ab: "re_search (get_module_name ''my_plugin'') (lower (listing ?x ''env'' (world ?st)))
      = Some False"
    by (simp add: string_defs demo_defs)
  from non_catalog_key [OF 1 2 3 4 5 6, of ?x "''env''" ?st ?st] m ro fr ab
  have v: "fst (validate ?x ?mods ''env'' ?st) = Inl (Exit 10)" by auto
  have i: "installs (trace (snd (install_core_modules ?x
        [(''my_plugin'', PyStr ''my-plugin-src'')] MODULES_LIST ''env'' ?st))) = []"
    by code_simp
  from m v i show ?thesis by simp
qed

end
